theory Spec2Isabelle
  imports Complex_Main "HOL-Library.Sublist" "HOL-Library.AList"
begin

section \<open>The video block (blocks/video/video.js)\<close>

subsection \<open>Classifying a link: \<open>videoTypeMap\<close> and \<open>getVideoType\<close>\<close>

text \<open>
  The patterns of \<open>videoTypeMap\<close> are regular expressions without flags that consist of
  literal characters only (\<open>/youtube\.com/\<close> is the text \<open>youtube.com\<close>).  For such a
  pattern \<open>RegExp.prototype.test\<close> tries every start index of the subject from left to
  right and succeeds when the literal begins there.  A pattern is represented by its
  literal text.
\<close>

fun test :: "string \<Rightarrow> string \<Rightarrow> bool" where
  "test lit [] = (lit = [])"
| "test lit (c # cs) = (prefix lit (c # cs) \<or> test lit cs)"

text \<open>
  \<open>Object.entries\<close> lists the string keys of an object in insertion order, so the frozen
  table is the ordered list of its entries.
\<close>

definition videoTypeMap :: "(string \<times> string list) list" where
  "videoTypeMap =
     [(''youtube'', [''youtube.com'', ''youtu.be'']),
      (''external'', [''vimeo.com''])]"

text \<open>The result \<open>undefined\<close> is \<open>None\<close>.\<close>

definition getVideoType :: "string \<Rightarrow> string option" where
  "getVideoType href =
     (case find (\<lambda>(_, allowedUrls). list_ex (\<lambda>urlToCompare. test urlToCompare href) allowedUrls)
             videoTypeMap of
        Some videoEntry \<Rightarrow> Some (fst videoEntry)
      | None \<Rightarrow> None)"

subsection \<open>Extracting the video id: \<open>getYouTubeId\<close>\<close>

text \<open>
  \<open>ytExp\<close> is
  \<^verbatim>\<open>/(?:[?&]v=|\/embed\/|\/1\/|\/v\/|https:\/\/(?:www\.)?youtu\.be\/)([^&\n?#]+)/\<close>:
  a non-capturing alternation of literal texts followed by the one capturing group, a
  greedy non-empty run of characters other than \<open>&\<close>, line feed, \<open>?\<close> and \<open>#\<close>.
  The alternatives are listed in the order in which the matcher tries them: the class
  \<open>[?&]\<close> is written out as two literals, and the greedy optional group \<open>(?:www\.)?\<close>
  is tried with its text first and without it second.
\<close>

definition ytAlternatives :: "string list" where
  "ytAlternatives =
     [''?v='', ''&v='', ''/embed/'', ''/1/'', ''/v/'',
      ''https://www.youtu.be/'', ''https://youtu.be/'']"

text \<open>The character class \<open>[^&\n?#]\<close>.\<close>

definition idChar :: "char \<Rightarrow> bool" where
  "idChar c = (c \<noteq> CHR ''&'' \<and> c \<noteq> CHR 0x0A \<and> c \<noteq> CHR ''?'' \<and> c \<noteq> CHR ''#'')"

text \<open>
  Matching at one start index: the first alternative that begins here and is followed by
  at least one character of the class succeeds, and the group captures the longest run
  (nothing follows the group in the pattern, so the greedy run is never shortened).
\<close>

fun matchHere :: "string list \<Rightarrow> string \<Rightarrow> string option" where
  "matchHere [] s = None"
| "matchHere (alt # alts) s =
     (if prefix alt s \<and> takeWhile idChar (drop (length alt) s) \<noteq> []
      then Some (takeWhile idChar (drop (length alt) s))
      else matchHere alts s)"

text \<open>
  \<open>String.prototype.match\<close> with a pattern without the \<open>g\<close> flag returns the leftmost
  match: the start indices are tried in increasing order.  The result is the text of
  capturing group 1, or \<open>None\<close> when \<open>match\<close> returns \<open>null\<close>.
\<close>

fun ytExp_match :: "string \<Rightarrow> string option" where
  "ytExp_match [] = matchHere ytAlternatives []"
| "ytExp_match (c # cs) =
     (case matchHere ytAlternatives (c # cs) of
        Some g \<Rightarrow> Some g
      | None \<Rightarrow> ytExp_match cs)"

text \<open>
  A successful match is the array of the whole match and group 1, so its length is 2 and
  the test \<open>match.length > 1\<close> holds whenever \<open>match\<close> is not \<open>null\<close>.
\<close>

definition getYouTubeId :: "string \<Rightarrow> string option" where
  "getYouTubeId href =
     (case ytExp_match href of
        Some g \<Rightarrow> Some g
      | None \<Rightarrow> None)"

subsection \<open>The page: the block's subtree and the globals the code reads and writes\<close>

text \<open>
  The block element and its descendants are a tree.  An element carries its tag name, its
  class list, its other attributes, its click listeners, for a media element the two
  properties of \<open>HTMLMediaElement\<close> the code uses, and for a link its \<open>href\<close>
  property: the URL to which the document resolves the \<open>href\<close> attribute (absolute, with
  scheme and host in lower case), or the empty string without the attribute.  The code
  reads this property and never writes it or the attribute, so the property is a field of
  its own beside the attributes.  A reference to a node is the list of child indices that
  leads to it from the block element; the block itself is \<open>[]\<close>.  The only listener
  this file registers is the arrow function that calls \<open>toggleVideoOverlay(block)\<close>.
\<close>

datatype handler = ToggleVideoOverlay

record element =
  tagName :: string
  classList :: "string list"
  attributes :: "(string \<times> string) list"
  listeners :: "handler list"
  paused :: bool
  currentTime :: real
  hrefProperty :: string

datatype node = Text string | Element element "node list"

type_synonym path = "nat list"

fun childNodes :: "node \<Rightarrow> node list" where
  "childNodes (Text t) = []"
| "childNodes (Element e ch) = ch"

fun getNode :: "node \<Rightarrow> path \<Rightarrow> node option" where
  "getNode n [] = Some n"
| "getNode (Text t) (i # p) = None"
| "getNode (Element e ch) (i # p) = (if i < length ch then getNode (ch ! i) p else None)"

definition getElement :: "node \<Rightarrow> path \<Rightarrow> element option" where
  "getElement b p = (case getNode b p of Some (Element e ch) \<Rightarrow> Some e | _ \<Rightarrow> None)"

text \<open>Replacing the node at a reference by its image under \<open>f\<close>.\<close>

fun updateNode :: "(node \<Rightarrow> node) \<Rightarrow> path \<Rightarrow> node \<Rightarrow> node" where
  "updateNode f [] n = f n"
| "updateNode f (i # p) (Text t) = Text t"
| "updateNode f (i # p) (Element e ch) =
     (if i < length ch then Element e (ch[i := updateNode f p (ch ! i)]) else Element e ch)"

fun mapElement :: "(element \<Rightarrow> element) \<Rightarrow> node \<Rightarrow> node" where
  "mapElement f (Text t) = Text t"
| "mapElement f (Element e ch) = Element (f e) ch"

definition updateElement :: "(element \<Rightarrow> element) \<Rightarrow> path \<Rightarrow> node \<Rightarrow> node" where
  "updateElement f p b = updateNode (mapElement f) p b"

fun setChildNodes :: "node list \<Rightarrow> node \<Rightarrow> node" where
  "setChildNodes ns (Text t) = Text t"
| "setChildNodes ns (Element e ch) = Element e ns"

text \<open>
  \<open>parent.removeChild(child)\<close> and \<open>parent.appendChild(child)\<close> for a new child; the
  reference of the child to remove is the parent's reference followed by its index.
\<close>

fun dropNth :: "nat \<Rightarrow> 'a list \<Rightarrow> 'a list" where
  "dropNth i xs = take i xs @ drop (Suc i) xs"

definition removeChild :: "path \<Rightarrow> node \<Rightarrow> node" where
  "removeChild p b =
     (if p = [] then b
      else updateNode (\<lambda>n. setChildNodes (dropNth (last p) (childNodes n)) n) (butlast p) b)"

definition appendChild :: "path \<Rightarrow> node \<Rightarrow> node \<Rightarrow> node" where
  "appendChild parent child b =
     updateNode (\<lambda>n. setChildNodes (childNodes n @ [child]) n) parent b"

text \<open>Assigning \<open>innerHTML\<close>, given the nodes the markup parses to.\<close>

definition setInnerHTML :: "path \<Rightarrow> node list \<Rightarrow> node \<Rightarrow> node" where
  "setInnerHTML p parsed b = updateNode (setChildNodes parsed) p b"

text \<open>\<open>classList\<close>, \<open>getAttribute\<close> and \<open>setAttribute\<close>.\<close>

definition contains :: "node \<Rightarrow> path \<Rightarrow> string \<Rightarrow> bool" where
  "contains b p c = (case getElement b p of Some e \<Rightarrow> c \<in> set (classList e) | None \<Rightarrow> False)"

definition addClass :: "string \<Rightarrow> element \<Rightarrow> element" where
  "addClass c e = (if c \<in> set (classList e) then e else e\<lparr>classList := classList e @ [c]\<rparr>)"

definition removeClass :: "string \<Rightarrow> element \<Rightarrow> element" where
  "removeClass c e = e\<lparr>classList := removeAll c (classList e)\<rparr>"

definition setAttr :: "string \<Rightarrow> string \<Rightarrow> element \<Rightarrow> element" where
  "setAttr name v e = e\<lparr>attributes := AList.update name v (attributes e)\<rparr>"

definition getAttribute :: "node \<Rightarrow> path \<Rightarrow> string \<Rightarrow> string option" where
  "getAttribute b p name =
     (case getElement b p of Some e \<Rightarrow> map_of (attributes e) name | None \<Rightarrow> None)"

text \<open>
  Selectors.  The file uses a tag name (\<open>video\<close>, \<open>h2\<close>, \<open>picture\<close>), a class
  (\<open>.video-modal\<close>), a tag with a class (\<open>button.video-modal-close\<close>) and one descendant
  combinator (\<open>.video-image a\<close>).  The children selected by \<open>:scope > p\<close> are handled by \<open>unwrapParagraphs\<close> below.
\<close>

datatype simple = Tag string | Cls string | TagCls string string

datatype selector = Simple simple | Descendant simple simple

fun matchesSimple :: "simple \<Rightarrow> element \<Rightarrow> bool" where
  "matchesSimple (Tag t) e = (tagName e = t)"
| "matchesSimple (Cls c) e = (c \<in> set (classList e))"
| "matchesSimple (TagCls t c) e = (tagName e = t \<and> c \<in> set (classList e))"

text \<open>
  The ancestors of the candidate are listed from the nearest one outwards, up to the block
  itself; an ancestor above the block is not looked at.
\<close>

fun matches :: "selector \<Rightarrow> element list \<Rightarrow> element \<Rightarrow> bool" where
  "matches (Simple s) anc e = matchesSimple s e"
| "matches (Descendant a s) anc e = (matchesSimple s e \<and> list_ex (matchesSimple a) anc)"

text \<open>
  The first element in tree order (an element before its children, children from left to
  right) that satisfies \<open>P\<close>: in a node, and in a list of siblings whose first member has
  index \<open>i\<close>.
\<close>

fun findNode :: "(element list \<Rightarrow> element \<Rightarrow> bool) \<Rightarrow> element list \<Rightarrow> node \<Rightarrow> path option"
and findNodes :: "(element list \<Rightarrow> element \<Rightarrow> bool) \<Rightarrow> element list \<Rightarrow> nat \<Rightarrow> node list \<Rightarrow> path option"
where
  "findNode P anc (Text t) = None"
| "findNode P anc (Element e ch) = (if P anc e then Some [] else findNodes P (e # anc) 0 ch)"
| "findNodes P anc i [] = None"
| "findNodes P anc i (n # ns) =
     (case findNode P anc n of
        Some p \<Rightarrow> Some (i # p)
      | None \<Rightarrow> findNodes P anc (Suc i) ns)"

text \<open>The elements on the way from the block down to the node at \<open>p\<close>, nearest first.\<close>

definition ancestorsOrSelf :: "node \<Rightarrow> path \<Rightarrow> element list" where
  "ancestorsOrSelf b p = rev (List.map_filter (getElement b) (prefixes p))"

text \<open>
  \<open>el.querySelector(sel)\<close> for the element \<open>el\<close> at reference \<open>p\<close>: the first descendant of
  \<open>el\<close> that matches.  The result is a reference from the block, or \<open>None\<close> for \<open>null\<close>.
\<close>

definition querySelector :: "node \<Rightarrow> path \<Rightarrow> selector \<Rightarrow> path option" where
  "querySelector b p sel =
     (case getNode b p of
        Some (Element e ch) \<Rightarrow>
          map_option (\<lambda>q. p @ q) (findNodes (matches sel) (ancestorsOrSelf b p) 0 ch)
      | _ \<Rightarrow> None)"

text \<open>
  \<open>document.getElementById\<close>.  The block is attached to the document, and the ids the code
  asks for (\<open>ytFrame-...\<close>) are given only to elements the code itself creates inside the
  block, so the search runs over the descendants of the block.
\<close>

definition getElementById :: "node \<Rightarrow> string \<Rightarrow> path option" where
  "getElementById b ident =
     findNodes (\<lambda>anc e. map_of (attributes e) ''id'' = Some ident) [] 0 (childNodes b)"

text \<open>
  \<open>el.closest(tag)\<close>: the nearest of the element and its ancestors with this tag name.
  The blocks of a page are \<open>div\<close> elements, so the search for a \<open>div\<close> ends inside the
  block; the model does not look above the block.
\<close>

definition closest :: "node \<Rightarrow> path \<Rightarrow> string \<Rightarrow> path option" where
  "closest b p t =
     find (\<lambda>q. case getElement b q of Some e \<Rightarrow> tagName e = t | None \<Rightarrow> False)
       (rev (prefixes p))"

text \<open>
  The interface to the external player: the arguments a \<open>YT.Player\<close> is constructed with
  (the element id, \<open>videoId\<close>, \<open>playerVars.start\<close> and whether \<open>events.onReady\<close> is the
  function that calls \<open>playVideo\<close>), and the trace of what the code asks of the external script (a construction, or a
  method called on the object held by the module variable \<open>player\<close>).
\<close>

record ytPlayer =
  playerElement :: string
  playerVideoId :: "string option"
  playerStart :: nat
  playerOnReady :: bool

datatype sdkEvent = Constructed ytPlayer | Called string

datatype jsError = TypeError

text \<open>
  The page as the code sees it: the block; the number of element children of the block's
  parent; the \<open>src\<close> of the script elements of the document in document order (they lie
  outside the block); whether \<open>window.YT\<close> is set; the function stored in
  \<open>window.onYouTubePlayerAPIReady\<close>, as the arguments its body passes to
  \<open>loadYouTubePlayer\<close>; the module variable \<open>player\<close>; and the trace.
\<close>

record page =
  block :: node
  parentChildElementCount :: nat
  scripts :: "string list"
  YT :: bool
  onYouTubePlayerAPIReady :: "(string \<times> string option) option"
  player :: "ytPlayer option"
  sdkLog :: "sdkEvent list"

subsection \<open>\<open>loadYouTubePlayer\<close> and \<open>toggleVideoOverlay\<close>\<close>

definition loadYouTubePlayer :: "string \<Rightarrow> string option \<Rightarrow> page \<Rightarrow> page" where
  "loadYouTubePlayer el vid s =
     (let p = \<lparr>playerElement = el, playerVideoId = vid, playerStart = 0, playerOnReady = True\<rparr>
      in s\<lparr>player := Some p, sdkLog := sdkLog s @ [Constructed p]\<rparr>)"

text \<open>
  A template literal converts the value it interpolates with \<open>ToString\<close>; \<open>videoId\<close> is a
  string or \<open>null\<close>.
\<close>

fun toString :: "string option \<Rightarrow> string" where
  "toString None = ''null''"
| "toString (Some v) = v"

definition ytFrame :: "string option \<Rightarrow> string" where
  "ytFrame videoId = ''ytFrame-'' @ toString videoId"

text \<open>
  The markup \<^verbatim>\<open><div id="ytFrame-${videoId}" data-hj-allow-iframe="true"></div>\<close> parses to
  one empty \<open>div\<close> with these two attributes (for a \<open>videoId\<close> without characters that end
  the quoted attribute value).
\<close>

definition newElement :: "string \<Rightarrow> element" where
  "newElement t =
     \<lparr>tagName = t, classList = [], attributes = [], listeners = [],
      paused = True, currentTime = 0, hrefProperty = []\<rparr>"

definition ytFrameMarkup :: "string option \<Rightarrow> node list" where
  "ytFrameMarkup videoId =
     [Element ((newElement ''div'')
        \<lparr>attributes := [(''id'', ytFrame videoId), (''data-hj-allow-iframe'', ''true'')]\<rparr>) []]"

definition iframe_api :: string where
  "iframe_api = ''https://www.youtube.com/iframe_api''"

text \<open>
  \<open>toggleVideoOverlay\<close>, statement by statement.  Reading a property of \<open>null\<close> or of
  \<open>undefined\<close> throws a \<open>TypeError\<close>: \<open>modal.querySelector\<close> when the block has no
  \<open>.video-modal\<close>, \<open>videoContent.getAttribute\<close> when the modal has no content pane, the
  assignment to \<open>currentTime\<close> when the modal has no \<open>video\<close>, and
  \<open>firstScriptTag.parentNode\<close> when the document has no script element.  The optional
  calls \<open>player?.stopVideo()\<close>, \<open>?.pause()\<close> and \<open>?.play()\<close> do nothing on \<open>undefined\<close> or
  \<open>null\<close>.
\<close>

definition toggleVideoOverlay :: "page \<Rightarrow> jsError + page" where
  "toggleVideoOverlay s =
     (case querySelector (block s) [] (Simple (Cls ''video-modal'')) of
        None \<Rightarrow> Inl TypeError
      | Some modal \<Rightarrow>
     (case querySelector (block s) modal (Simple (Cls ''video-modal-content'')) of
        None \<Rightarrow> Inl TypeError
      | Some videoContent \<Rightarrow>
          let videoType = getAttribute (block s) videoContent ''data-videoType'';
              videoId = getAttribute (block s) videoContent ''data-videoId''
          in
          if contains (block s) modal ''open'' then
            let s1 = s\<lparr>block := updateElement (removeClass ''open'') modal (block s)\<rparr> in
            if videoType = Some ''youtube'' then
              let s2 = (case player s1 of
                          None \<Rightarrow> s1
                        | Some p \<Rightarrow> s1\<lparr>sdkLog := sdkLog s1 @ [Called ''stopVideo'']\<rparr>)
              in
              (case getElementById (block s2) (ytFrame videoId) of
                 None \<Rightarrow> Inr s2
               | Some iFrame \<Rightarrow> Inr (s2\<lparr>block := removeChild iFrame (block s2)\<rparr>))
            else
              let s2 = (case querySelector (block s1) modal (Simple (Tag ''video'')) of
                          None \<Rightarrow> s1
                        | Some v \<Rightarrow>
                            s1\<lparr>block := updateElement (\<lambda>e. e\<lparr>paused := True\<rparr>) v (block s1)\<rparr>)
              in
              (case querySelector (block s2) modal (Simple (Tag ''video'')) of
                 None \<Rightarrow> Inl TypeError
               | Some v \<Rightarrow>
                   Inr (s2\<lparr>block := updateElement (\<lambda>e. e\<lparr>currentTime := 0\<rparr>) v (block s2)\<rparr>))
          else
            let s1 = s\<lparr>block := updateElement (addClass ''open'') modal (block s)\<rparr> in
            if videoType = Some ''youtube'' then
              let s2 = s1\<lparr>block := setInnerHTML videoContent (ytFrameMarkup videoId) (block s1)\<rparr>
              in
              if YT s2 then Inr (loadYouTubePlayer (ytFrame videoId) videoId s2)
              else
                (case scripts s2 of
                   [] \<Rightarrow> Inl TypeError
                 | firstScriptTag # others \<Rightarrow>
                     Inr (s2\<lparr>scripts := iframe_api # scripts s2,
                             onYouTubePlayerAPIReady := Some (ytFrame videoId, videoId)\<rparr>))
            else
              (case querySelector (block s1) modal (Simple (Tag ''video'')) of
                 None \<Rightarrow> Inr s1
               | Some v \<Rightarrow>
                   Inr (s1\<lparr>block := updateElement (\<lambda>e. e\<lparr>paused := False\<rparr>) v (block s1)\<rparr>))))"

subsection \<open>Building the modal: \<open>createTag\<close>, \<open>decorateVideoLink\<close> and \<open>buildVideoModal\<close>\<close>

text \<open>
  Modelled from the spec: \<open>createTag\<close> is imported from \<open>scripts/scripts.js\<close>, which is not
  among the sources; the specification lists it among the generic DOM-tag creation
  utilities.  It returns a new element with the given tag and attributes and without
  children.  Every call in this file passes one class name as \<open>class\<close>, which becomes the
  class list of the element.
\<close>

definition createTag :: "string \<Rightarrow> (string \<times> string) list \<Rightarrow> node" where
  "createTag t attrs =
     Element ((newElement t)
       \<lparr>classList := (case map_of attrs ''class'' of Some c \<Rightarrow> [c] | None \<Rightarrow> []),
        attributes := filter (\<lambda>(k, v). k \<noteq> ''class'') attrs\<rparr>) []"

text \<open>The markup \<^verbatim>\<open><span>${label}</span>\<close>.\<close>

definition labelMarkup :: "string \<Rightarrow> node list" where
  "labelMarkup label = [Element (newElement ''span'') [Text label]]"

text \<open>
  \<open>decorateVideoLink(link, videoType, label)\<close>.  The link is a descendant of the block (the
  caller passes a result of \<open>block.querySelector\<close>), so its parent is the reference without
  its last index.  The new button is appended to the parent and the link, which stands
  before it, is removed, so the button ends as the last child of the parent.  The result
  is the changed block with the reference of \<open>playBtn\<close>.
\<close>

definition decorateVideoLink :: "path \<Rightarrow> string option \<Rightarrow> string \<Rightarrow> node \<Rightarrow> node \<times> path" where
  "decorateVideoLink link videoType label b =
     (if videoType \<noteq> Some ''external'' then
        let playBtn = createTag ''button''
              [(''class'', ''open-video''), (''type'', ''button''), (''aria-label'', ''Play video'')];
            parentElement = butlast link;
            b1 = appendChild parentElement playBtn b;
            b2 = removeChild link b1;
            playBtnRef = parentElement @
              [length (case getNode b2 parentElement of Some n \<Rightarrow> childNodes n | None \<Rightarrow> []) - 1]
        in (setInnerHTML playBtnRef (labelMarkup label) b2, playBtnRef)
      else
        let b1 = updateElement (setAttr ''target'' ''_blank'') link b;
            b2 = updateElement (addClass ''open-video'') link b1
        in (setInnerHTML link (labelMarkup label) b2, link))"

text \<open>
  The markup assigned to the content pane of a modal that is not a YouTube modal is a
  template literal of four lines.  It parses to one \<open>video\<close> element (a new media
  element is paused at position 0) with three child nodes: the line break and the eight
  blanks in front of \<open><source\<close>; the \<open>source\<close> element, whose \<open>src\<close> is the href
  (for an href without characters that end the quoted attribute value); and the text up
  to \<open></video>\<close>, which is the fallback sentence in its double quotes between two line
  breaks with their indentation.
\<close>

definition videoMarkup :: "string \<Rightarrow> node list" where
  "videoMarkup href =
     [Element ((newElement ''video'')
        \<lparr>attributes := [(''controls'', []), (''playsinline'', []), (''loop'', []),
                        (''preload'', ''auto'')]\<rparr>)
        [Text (CHR 0x0A # ''        ''),
         Element ((newElement ''source'')
           \<lparr>attributes := [(''src'', href), (''type'', ''video/mp4'')]\<rparr>) [],
         Text (CHR 0x0A # ''        '' @ CHR 0x22 # ''Your browser does not support videos''
               @ CHR 0x22 # CHR 0x0A # ''        '')]]"

text \<open>
  \<open>buildVideoModal(href, videoType)\<close>.  Storing \<open>null\<close> through \<open>dataset\<close> or \<open>setAttribute\<close>
  stores the string \<open>null\<close>.  The attribute names are compared as the source writes them
  (an HTML document lower-cases the name both in \<open>setAttribute\<close> and in \<open>getAttribute\<close>).
\<close>

definition buildVideoModal :: "string \<Rightarrow> string option \<Rightarrow> node" where
  "buildVideoModal href videoType =
     (let videoModal = createTag ''div''
            [(''class'', ''video-modal''), (''aria-modal'', ''true''), (''role'', ''dialog'')];
          videoOverlay = createTag ''div'' [(''class'', ''video-modal-overlay'')];
          videoContainer = createTag ''div'' [(''class'', ''video-modal-container'')];
          videoHeader = createTag ''div'' [(''class'', ''video-modal-header'')];
          videoClose = createTag ''button''
            [(''class'', ''video-modal-close''), (''aria-label'', ''close'')];
          videoHeader1 = appendChild [] videoClose videoHeader;
          videoContainer1 = appendChild [] videoHeader1 videoContainer;
          videoContent = createTag ''div'' [(''class'', ''video-modal-content'')];
          videoContent1 =
            (if videoType = Some ''youtube'' then
               let ytid = getYouTubeId href in
               mapElement (setAttr ''data-videoId'' (toString ytid))
                 (mapElement (setAttr ''data-videoType'' ''youtube'')
                   (mapElement (setAttr ''data-ytid'' (toString ytid)) videoContent))
             else setChildNodes (videoMarkup href) videoContent);
          videoContainer2 = appendChild [] videoContent1 videoContainer1;
          videoModal1 = appendChild [] videoOverlay videoModal;
          videoModal2 = appendChild [] videoContainer2 videoModal1
      in videoModal2)"

subsection \<open>\<open>decorate\<close>\<close>

fun isElement :: "node \<Rightarrow> bool" where
  "isElement (Text t) = False"
| "isElement (Element e ch) = True"

fun hasTag :: "string \<Rightarrow> node \<Rightarrow> bool" where
  "hasTag t (Text x) = False"
| "hasTag t (Element e ch) = (tagName e = t)"

text \<open>The indices of the element children in a list of child nodes, from index \<open>i\<close> on.\<close>

fun elementIndices :: "nat \<Rightarrow> node list \<Rightarrow> nat list" where
  "elementIndices i [] = []"
| "elementIndices i (n # ns) =
     (if isElement n then i # elementIndices (Suc i) ns else elementIndices (Suc i) ns)"

definition children :: "node \<Rightarrow> path \<Rightarrow> path list" where
  "children b p =
     (case getNode b p of
        Some n \<Rightarrow> map (\<lambda>i. p @ [i]) (elementIndices 0 (childNodes n))
      | None \<Rightarrow> [])"

definition firstElementChild :: "node \<Rightarrow> path \<Rightarrow> path option" where
  "firstElementChild b p = (case children b p of [] \<Rightarrow> None | c # cs \<Rightarrow> Some c)"

text \<open>
  The loop over \<open>firstCol.querySelectorAll(':scope > p')\<close>: each child \<open>p\<close> of the column
  has its child nodes moved in front of it, one after the other, and is then removed.  The
  list of paragraphs is fixed before the loop, so a \<open>p\<close> that arrives in the column from
  inside another one stays.  The column's child nodes after the loop:
\<close>

fun unwrapParagraphs :: "node list \<Rightarrow> node list" where
  "unwrapParagraphs [] = []"
| "unwrapParagraphs (n # ns) =
     (if hasTag ''p'' n then childNodes n @ unwrapParagraphs ns else n # unwrapParagraphs ns)"

text \<open>
  \<open>el.previousElementSibling\<close> is \<open>null\<close> when no sibling before \<open>el\<close> is an element.
\<close>

definition hasPreviousElementSibling :: "node \<Rightarrow> path \<Rightarrow> bool" where
  "hasPreviousElementSibling b p =
     (p \<noteq> [] \<and>
      (case getNode b (butlast p) of
         Some n \<Rightarrow> list_ex isElement (take (last p) (childNodes n))
       | None \<Rightarrow> False))"

text \<open>
  \<open>el.parentNode.childElementCount\<close>; for the block itself the count is the page's
  \<open>parentChildElementCount\<close>.
\<close>

definition parentChildCount :: "page \<Rightarrow> path \<Rightarrow> nat" where
  "parentChildCount s p =
     (if p = [] then parentChildElementCount s else length (children (block s) (butlast p)))"

text \<open>
  The five parts of \<open>decorate\<close> in the order of the source: the single-column clean-up,
  the text container, the picture container, the video link, and the alignment of the
  text container.  \<open>videoLink.href\<close> is the \<open>href\<close> property of the link.
\<close>

definition cleanUpSingleColumn :: "page \<Rightarrow> jsError + page" where
  "cleanUpSingleColumn s =
     (case firstElementChild (block s) [] of
        None \<Rightarrow> Inl TypeError
      | Some row \<Rightarrow>
          let cols = children (block s) row in
          if length cols = 1 then
            let firstCol = hd cols in
            Inr (s\<lparr>block :=
                   updateNode (\<lambda>n. setChildNodes (unwrapParagraphs (childNodes n)) n)
                     firstCol (block s)\<rparr>)
          else Inr s)"

definition decorateText :: "page \<Rightarrow> jsError + page" where
  "decorateText s =
     (case querySelector (block s) [] (Simple (Tag ''h2'')) of
        None \<Rightarrow> Inr s
      | Some heading \<Rightarrow>
          (case closest (block s) heading ''div'' of
             None \<Rightarrow> Inl TypeError
           | Some d \<Rightarrow> Inr (s\<lparr>block := updateElement (addClass ''video-text'') d (block s)\<rparr>)))"

definition decoratePicture :: "page \<Rightarrow> jsError + page" where
  "decoratePicture s =
     (case querySelector (block s) [] (Simple (Tag ''picture'')) of
        None \<Rightarrow> Inr s
      | Some picture \<Rightarrow>
          (case closest (block s) picture ''div'' of
             None \<Rightarrow> Inl TypeError
           | Some pictureContainer \<Rightarrow>
               let s1 = s\<lparr>block := updateElement (addClass ''video-image'') pictureContainer (block s)\<rparr>;
                   s2 = (if parentChildCount s1 pictureContainer = 1
                         then s1\<lparr>block := updateElement (addClass ''single-video'')
                                             pictureContainer (block s1)\<rparr>
                         else s1)
               in
               (case getNode (block s2) picture of
                  None \<Rightarrow> Inr s2
                | Some pictureNode \<Rightarrow>
                    Inr (s2\<lparr>block := appendChild pictureContainer pictureNode
                                        (removeChild picture (block s2))\<rparr>))))"

definition decorateLink :: "page \<Rightarrow> jsError + page" where
  "decorateLink s =
     (case querySelector (block s) [] (Descendant (Cls ''video-image'') (Tag ''a'')) of
        None \<Rightarrow> Inr s
      | Some videoLink \<Rightarrow>
          let videoHref = (case getElement (block s) videoLink of
                             Some a \<Rightarrow> hrefProperty a | None \<Rightarrow> []);
              videoType = getVideoType videoHref;
              (b1, playButton) = decorateVideoLink videoLink videoType ''Play'' (block s)
          in
          if videoType \<noteq> Some ''external'' then
            let videoModal = buildVideoModal videoHref videoType in
            (case querySelector videoModal [] (Simple (TagCls ''button'' ''video-modal-close'')) of
               None \<Rightarrow> Inl TypeError
             | Some videoClose \<Rightarrow>
                 let videoModal1 =
                       updateElement (\<lambda>e. e\<lparr>listeners := listeners e @ [ToggleVideoOverlay]\<rparr>)
                         videoClose videoModal;
                     b2 = appendChild [] videoModal1 b1;
                     b3 = updateElement (\<lambda>e. e\<lparr>listeners := listeners e @ [ToggleVideoOverlay]\<rparr>)
                            playButton b2
                 in Inr (s\<lparr>block := b3\<rparr>))
          else Inr (s\<lparr>block := b1\<rparr>))"

definition alignText :: "page \<Rightarrow> page" where
  "alignText s =
     (case querySelector (block s) [] (Simple (Cls ''video-text'')) of
        None \<Rightarrow> s
      | Some textDivElement \<Rightarrow>
          if \<not> hasPreviousElementSibling (block s) textDivElement
          then s\<lparr>block := updateElement (addClass ''text-left'') textDivElement (block s)\<rparr>
          else s)"

definition decorate :: "page \<Rightarrow> jsError + page" where
  "decorate s =
     (case cleanUpSingleColumn s of
        Inl err \<Rightarrow> Inl err
      | Inr s1 \<Rightarrow>
     (case decorateText s1 of
        Inl err \<Rightarrow> Inl err
      | Inr s2 \<Rightarrow>
     (case decoratePicture s2 of
        Inl err \<Rightarrow> Inl err
      | Inr s3 \<Rightarrow>
     (case decorateLink s3 of
        Inl err \<Rightarrow> Inl err
      | Inr s4 \<Rightarrow> Inr (alignText s4)))))"

subsection \<open>The environment, runs and example pages\<close>

text \<open>
  What happens outside the code.  \<open>apiReady\<close>: the external script has loaded; it sets
  \<open>window.YT\<close> and calls \<open>window.onYouTubePlayerAPIReady\<close> when one is stored, whose body
  is the call of \<open>loadYouTubePlayer\<close> with the arguments captured at the open transition.
  \<open>playback\<close>: the media element at \<open>v\<close> has played to position \<open>t\<close>.
\<close>

definition apiReady :: "page \<Rightarrow> page" where
  "apiReady s =
     (let s1 = s\<lparr>YT := True\<rparr>
      in case onYouTubePlayerAPIReady s1 of
           None \<Rightarrow> s1
         | Some (el, vid) \<Rightarrow> loadYouTubePlayer el vid s1)"

definition playback :: "path \<Rightarrow> real \<Rightarrow> page \<Rightarrow> page" where
  "playback v t s = s\<lparr>block := updateElement (\<lambda>e. e\<lparr>currentTime := t\<rparr>) v (block s)\<rparr>"

text \<open>
  A run is a sequence of events on one block: an activation of the play control or of the
  close control (both listeners call \<open>toggleVideoOverlay(block)\<close>), or the arrival of the
  external script.  A thrown error ends the run.
\<close>

datatype event = Activate | ApiReady

definition thenDo :: "jsError + 'a \<Rightarrow> ('a \<Rightarrow> jsError + 'b) \<Rightarrow> jsError + 'b" where
  "thenDo r f = (case r of Inl err \<Rightarrow> Inl err | Inr x \<Rightarrow> f x)"

fun step :: "event \<Rightarrow> page \<Rightarrow> jsError + page" where
  "step Activate s = toggleVideoOverlay s"
| "step ApiReady s = Inr (apiReady s)"

fun run :: "event list \<Rightarrow> page \<Rightarrow> jsError + page" where
  "run [] s = Inr s"
| "run (ev # evs) s = thenDo (step ev s) (run evs)"

text \<open>
  The next activation is the open transition of a YouTube modal: the block has a modal
  with a content pane marked \<open>youtube\<close>, and the modal is not open.
\<close>

definition closedYoutubeModal :: "page \<Rightarrow> bool" where
  "closedYoutubeModal s =
     (case querySelector (block s) [] (Simple (Cls ''video-modal'')) of
        None \<Rightarrow> False
      | Some modal \<Rightarrow>
          (case querySelector (block s) modal (Simple (Cls ''video-modal-content'')) of
             None \<Rightarrow> False
           | Some videoContent \<Rightarrow>
               \<not> contains (block s) modal ''open'' \<and>
               getAttribute (block s) videoContent ''data-videoType'' = Some ''youtube''))"

text \<open>
  The markup of a teaser with one column that holds a picture and a link, as the block
  loader hands it to \<open>decorate\<close>, and a page around it: the block is the only element
  child of its parent, the document has one script element, and \<open>window.YT\<close> is set or
  not.  The examples below give the link an absolute URL in the form in which the document
  serialises it, so its \<open>href\<close> attribute and its \<open>href\<close> property are the same text.
\<close>

definition teaser :: "string \<Rightarrow> node" where
  "teaser href =
     Element ((newElement ''div'')\<lparr>classList := [''video'', ''block'']\<rparr>)
       [Element (newElement ''div'')
         [Element (newElement ''div'')
           [Element (newElement ''p'')
              [Element (newElement ''picture'')
                 [Element ((newElement ''img'')\<lparr>attributes := [(''src'', ''poster.jpg'')]\<rparr>) []]],
            Element (newElement ''p'')
              [Element ((newElement ''a'')\<lparr>attributes := [(''href'', href)],
                                               hrefProperty := href\<rparr>)
                 [Text ''Watch'']]]]]"

definition examplePage :: "string \<Rightarrow> bool \<Rightarrow> page" where
  "examplePage href sdk =
     \<lparr>block = teaser href, parentChildElementCount = 1, scripts = [''/scripts/scripts.js''],
      YT = sdk, onYouTubePlayerAPIReady = None, player = None, sdkLog = []\<rparr>"

section \<open>Properties of the classifier and of the id extractor\<close>

lemma test_iff_sublist: "test lit s \<longleftrightarrow> sublist lit s"
  by (induction s) (auto simp: sublist_Cons_right)

lemma takeWhile_nonempty: "takeWhile P xs \<noteq> [] \<longleftrightarrow> (\<exists>c cs. xs = c # cs \<and> P c)"
  by (cases xs) auto

lemma matchHere_None:
  "matchHere alts s = None \<longleftrightarrow>
     (\<forall>alt\<in>set alts. \<not> (prefix alt s \<and> takeWhile idChar (drop (length alt) s) \<noteq> []))"
  by (induction alts) auto

lemma matchHere_Some:
  "matchHere alts s = Some g \<Longrightarrow>
     \<exists>alt\<in>set alts. prefix alt s \<and> g = takeWhile idChar (drop (length alt) s) \<and> g \<noteq> []"
  by (induction alts) (auto split: if_splits)

lemma shape_here:
  "(prefix alt s \<and> takeWhile idChar (drop (length alt) s) \<noteq> []) \<longleftrightarrow>
     (\<exists>c. idChar c \<and> prefix (alt @ [c]) s)"
proof
  assume "prefix alt s \<and> takeWhile idChar (drop (length alt) s) \<noteq> []"
  then obtain r where s: "s = alt @ r" and "takeWhile idChar r \<noteq> []"
    by (auto simp: prefix_def)
  then obtain c cs where "r = c # cs" "idChar c"
    by (auto simp: takeWhile_nonempty)
  with s show "\<exists>c. idChar c \<and> prefix (alt @ [c]) s"
    by (auto simp: prefix_def)
next
  assume "\<exists>c. idChar c \<and> prefix (alt @ [c]) s"
  then obtain c r where "idChar c" "s = (alt @ [c]) @ r"
    by (auto simp: prefix_def)
  then show "prefix alt s \<and> takeWhile idChar (drop (length alt) s) \<noteq> []"
    by auto
qed

lemma ytExp_match_None:
  "ytExp_match s = None \<longleftrightarrow>
     (\<forall>alt\<in>set ytAlternatives. \<forall>c. idChar c \<longrightarrow> \<not> sublist (alt @ [c]) s)"
proof (induction s)
  case Nil
  show ?case by (simp add: matchHere_None)
next
  case (Cons a s)
  have "ytExp_match (a # s) = None \<longleftrightarrow>
          matchHere ytAlternatives (a # s) = None \<and> ytExp_match s = None"
    by (simp split: option.splits)
  also have "\<dots> \<longleftrightarrow>
      (\<forall>alt\<in>set ytAlternatives. \<forall>c. idChar c \<longrightarrow> \<not> prefix (alt @ [c]) (a # s))
      \<and> (\<forall>alt\<in>set ytAlternatives. \<forall>c. idChar c \<longrightarrow> \<not> sublist (alt @ [c]) s)"
    unfolding matchHere_None shape_here Cons.IH by blast
  also have "\<dots> \<longleftrightarrow>
      (\<forall>alt\<in>set ytAlternatives. \<forall>c. idChar c \<longrightarrow> \<not> sublist (alt @ [c]) (a # s))"
    unfolding sublist_Cons_right by blast
  finally show ?case .
qed

lemma getYouTubeId_ytExp: "getYouTubeId href = ytExp_match href"
  by (simp add: getYouTubeId_def split: option.splits)

lemma straddle:
  assumes "alt = u @ us" "u \<noteq> []" "us \<noteq> []"
  shows "hd us \<in> set (tl alt)"
  using assms by (cases u; cases us) auto

lemma ytAlternatives_tl:
  "\<forall>alt\<in>set ytAlternatives. CHR ''?'' \<notin> set (tl alt) \<and> CHR ''&'' \<notin> set (tl alt)"
  by (simp add: ytAlternatives_def)

lemma prefix_hd:
  assumes "prefix us (q @ w)" "us \<noteq> []" "q \<noteq> []"
  shows "hd us = hd q"
  using assms by (cases us; cases q) auto

lemma no_match_in_pre:
  assumes nosub: "\<forall>alt\<in>set ytAlternatives. \<not> sublist alt (p @ pre)"
      and q: "q = ''?v='' \<or> q = ''&v=''"
      and pre: "pre \<noteq> []"
  shows "matchHere ytAlternatives (pre @ q @ w) = None"
proof -
  have qne: "q \<noteq> []" using q by (elim disjE) simp_all
  have hq: "hd q = CHR ''?'' \<or> hd q = CHR ''&''" using q by (elim disjE) simp_all
  have "\<not> prefix alt (pre @ q @ w)" if alt: "alt \<in> set ytAlternatives" for alt
  proof
    assume pf: "prefix alt (pre @ q @ w)"
    from alt nosub have ns: "\<not> sublist alt (p @ pre)" by blast
    have np: "\<not> prefix alt pre"
    proof
      assume "prefix alt pre"
      then obtain z where "pre = alt @ z" by (auto simp: prefix_def)
      then have "p @ pre = p @ alt @ z" by simp
      then have "sublist alt (p @ pre)" unfolding sublist_def by blast
      with ns show False by simp
    qed
    with pf obtain us where us: "alt = pre @ us" "prefix us (q @ w)"
      by (auto simp: prefix_append)
    have usne: "us \<noteq> []" using us(1) np by auto
    have "hd us = hd q" by (rule prefix_hd[OF us(2) usne qne])
    moreover have "hd us \<in> set (tl alt)" by (rule straddle[OF us(1) pre usne])
    moreover have "CHR ''?'' \<notin> set (tl alt) \<and> CHR ''&'' \<notin> set (tl alt)"
      using alt ytAlternatives_tl by blast
    ultimately show False using hq by metis
  qed
  then show ?thesis unfolding matchHere_None by blast
qed

lemma match_at_q:
  assumes q: "q = ''?v='' \<or> q = ''&v=''"
      and "ident \<noteq> []" "\<forall>c\<in>set ident. idChar c" "rest = [] \<or> \<not> idChar (hd rest)"
  shows "matchHere ytAlternatives (q @ ident @ rest) = Some ident"
proof -
  have tw: "takeWhile idChar (ident @ rest) = ident"
    using assms(3,4) by (cases rest) (auto simp: takeWhile_eq_all_conv)
  from q show ?thesis
  proof
    assume "q = ''?v=''"
    then show ?thesis using assms(2) tw by (simp add: ytAlternatives_def)
  next
    assume "q = ''&v=''"
    then show ?thesis using assms(2) tw by (simp add: ytAlternatives_def)
  qed
qed

lemma ytExp_match_query:
  assumes "\<forall>alt\<in>set ytAlternatives. \<not> sublist alt (p @ pre)"
      and "q = ''?v='' \<or> q = ''&v=''"
      and "ident \<noteq> []" "\<forall>c\<in>set ident. idChar c" "rest = [] \<or> \<not> idChar (hd rest)"
  shows "ytExp_match (pre @ q @ ident @ rest) = Some ident"
  using assms(1)
proof (induction pre arbitrary: p)
  case Nil
  have "q @ ident @ rest \<noteq> []" using assms(2) by auto
  then obtain c cs where "q @ ident @ rest = c # cs" by (cases "q @ ident @ rest") auto
  then show ?case using match_at_q[OF assms(2-5)] by simp
next
  case (Cons a pre)
  have "matchHere ytAlternatives ((a # pre) @ q @ ident @ rest) = None"
    using no_match_in_pre[OF Cons.prems assms(2)] by simp
  moreover have "\<forall>alt\<in>set ytAlternatives. \<not> sublist alt ((p @ [a]) @ pre)"
    using Cons.prems by simp
  then have "ytExp_match (pre @ q @ ident @ rest) = Some ident"
    by (rule Cons.IH)
  ultimately show ?case by simp
qed

lemma ytAlternatives_prefix_free:
  "\<forall>a\<in>set ytAlternatives. \<forall>b\<in>set ytAlternatives. prefix a b \<longrightarrow> a = b"
  by (simp add: ytAlternatives_def)

lemma matchHere_unique:
  assumes "alt \<in> set ytAlternatives" "prefix alt s"
      and "takeWhile idChar (drop (length alt) s) \<noteq> []"
  shows "matchHere ytAlternatives s = Some (takeWhile idChar (drop (length alt) s))"
proof -
  from assms have "matchHere ytAlternatives s \<noteq> None"
    unfolding matchHere_None by blast
  then obtain g where g: "matchHere ytAlternatives s = Some g" by auto
  from matchHere_Some[OF g] obtain alt' where
    a': "alt' \<in> set ytAlternatives" "prefix alt' s"
        "g = takeWhile idChar (drop (length alt') s)"
    by blast
  from assms(2) a'(2) have "prefix alt alt' \<or> prefix alt' alt"
    by (rule prefix_same_cases)
  with ytAlternatives_prefix_free assms(1) a'(1) have "alt' = alt" by blast
  with g a'(3) show ?thesis by simp
qed

lemma ytExp_match_leftmost:
  "ytExp_match s = Some g \<longleftrightarrow>
     (\<exists>n\<le>length s. matchHere ytAlternatives (drop n s) = Some g
         \<and> (\<forall>m<n. matchHere ytAlternatives (drop m s) = None))"
proof (induction s)
  case Nil
  show ?case by simp
next
  case (Cons c cs)
  show ?case
  proof (cases "matchHere ytAlternatives (c # cs)")
    case None
    have "ytExp_match (c # cs) = Some g \<longleftrightarrow> ytExp_match cs = Some g"
      using None by simp
    also have "\<dots> \<longleftrightarrow> (\<exists>n\<le>length cs. matchHere ytAlternatives (drop n cs) = Some g
         \<and> (\<forall>m<n. matchHere ytAlternatives (drop m cs) = None))"
      by (rule Cons.IH)
    also have "\<dots> \<longleftrightarrow> (\<exists>n\<le>length (c # cs). matchHere ytAlternatives (drop n (c # cs)) = Some g
         \<and> (\<forall>m<n. matchHere ytAlternatives (drop m (c # cs)) = None))"
    proof
      assume "\<exists>n\<le>length cs. matchHere ytAlternatives (drop n cs) = Some g
         \<and> (\<forall>m<n. matchHere ytAlternatives (drop m cs) = None)"
      then obtain n where n: "n \<le> length cs" "matchHere ytAlternatives (drop n cs) = Some g"
        "\<forall>m<n. matchHere ytAlternatives (drop m cs) = None" by blast
      have "\<forall>m<Suc n. matchHere ytAlternatives (drop m (c # cs)) = None"
      proof (intro allI impI)
        fix m assume "m < Suc n"
        then show "matchHere ytAlternatives (drop m (c # cs)) = None"
          using None n(3) by (cases m) simp_all
      qed
      with n(1,2) have "Suc n \<le> length (c # cs)
          \<and> matchHere ytAlternatives (drop (Suc n) (c # cs)) = Some g
          \<and> (\<forall>m<Suc n. matchHere ytAlternatives (drop m (c # cs)) = None)" by simp
      then show "\<exists>n\<le>length (c # cs). matchHere ytAlternatives (drop n (c # cs)) = Some g
         \<and> (\<forall>m<n. matchHere ytAlternatives (drop m (c # cs)) = None)" by blast
    next
      assume "\<exists>n\<le>length (c # cs). matchHere ytAlternatives (drop n (c # cs)) = Some g
         \<and> (\<forall>m<n. matchHere ytAlternatives (drop m (c # cs)) = None)"
      then obtain n where n: "n \<le> length (c # cs)"
        "matchHere ytAlternatives (drop n (c # cs)) = Some g"
        "\<forall>m<n. matchHere ytAlternatives (drop m (c # cs)) = None" by blast
      from n(2) None obtain k where k: "n = Suc k" by (cases n) simp_all
      have "\<forall>m<k. matchHere ytAlternatives (drop m cs) = None"
      proof (intro allI impI)
        fix m assume "m < k"
        then have "Suc m < n" using k by simp
        with n(3) have "matchHere ytAlternatives (drop (Suc m) (c # cs)) = None" by blast
        then show "matchHere ytAlternatives (drop m cs) = None" by simp
      qed
      with n(1,2) k have "k \<le> length cs \<and> matchHere ytAlternatives (drop k cs) = Some g
         \<and> (\<forall>m<k. matchHere ytAlternatives (drop m cs) = None)" by simp
      then show "\<exists>n\<le>length cs. matchHere ytAlternatives (drop n cs) = Some g
         \<and> (\<forall>m<n. matchHere ytAlternatives (drop m cs) = None)" by blast
    qed
    finally show ?thesis .
  next
    case (Some g')
    have l: "ytExp_match (c # cs) = Some g \<longleftrightarrow> g' = g" using Some by simp
    have r: "(\<exists>n\<le>length (c # cs). matchHere ytAlternatives (drop n (c # cs)) = Some g
         \<and> (\<forall>m<n. matchHere ytAlternatives (drop m (c # cs)) = None)) \<longleftrightarrow> g' = g"
    proof
      assume "\<exists>n\<le>length (c # cs). matchHere ytAlternatives (drop n (c # cs)) = Some g
         \<and> (\<forall>m<n. matchHere ytAlternatives (drop m (c # cs)) = None)"
      then obtain n where n: "matchHere ytAlternatives (drop n (c # cs)) = Some g"
        "\<forall>m<n. matchHere ytAlternatives (drop m (c # cs)) = None" by blast
      have "n = 0"
      proof (rule ccontr)
        assume "n \<noteq> 0"
        then have "0 < n" by simp
        with n(2) have "matchHere ytAlternatives (drop 0 (c # cs)) = None" by blast
        with Some show False by simp
      qed
      with n(1) Some show "g' = g" by simp
    next
      assume "g' = g"
      with Some have "0 \<le> length (c # cs) \<and> matchHere ytAlternatives (drop 0 (c # cs)) = Some g
         \<and> (\<forall>m<0. matchHere ytAlternatives (drop m (c # cs)) = None)" by simp
      then show "\<exists>n\<le>length (c # cs). matchHere ytAlternatives (drop n (c # cs)) = Some g
         \<and> (\<forall>m<n. matchHere ytAlternatives (drop m (c # cs)) = None)" by blast
    qed
    show ?thesis unfolding l r ..
  qed
qed

lemma ytExp_match_Some_iff:
  "ytExp_match s = Some g \<longleftrightarrow>
     (\<exists>pre alt rest. s = pre @ alt @ g @ rest \<and> alt \<in> set ytAlternatives
        \<and> g \<noteq> [] \<and> (\<forall>c\<in>set g. idChar c) \<and> (rest = [] \<or> \<not> idChar (hd rest))
        \<and> (\<forall>pre' alt' c rest'. alt' \<in> set ytAlternatives \<and> idChar c
               \<and> s = pre' @ alt' @ c # rest' \<longrightarrow> length pre \<le> length pre'))"
proof
  assume "ytExp_match s = Some g"
  then obtain n where n: "n \<le> length s"
    and mh: "matchHere ytAlternatives (drop n s) = Some g"
    and lm: "\<forall>m<n. matchHere ytAlternatives (drop m s) = None"
    unfolding ytExp_match_leftmost by blast
  from matchHere_Some[OF mh] obtain alt where alt: "alt \<in> set ytAlternatives"
    and pf: "prefix alt (drop n s)"
    and g: "g = takeWhile idChar (drop (length alt) (drop n s))" and gne: "g \<noteq> []"
    by blast
  define r where "r = drop (length alt) (drop n s)"
  define rest where "rest = dropWhile idChar r"
  from pf obtain zs where zs: "drop n s = alt @ zs" by (auto simp: prefix_def)
  have "r = zs" unfolding r_def zs by simp
  with zs have dn: "drop n s = alt @ r" by simp
  have "s = take n s @ drop n s" by simp
  also have "\<dots> = take n s @ alt @ g @ rest"
    unfolding dn g rest_def r_def[symmetric] by simp
  finally have dec: "s = take n s @ alt @ g @ rest" .
  have all: "\<forall>c\<in>set g. idChar c" unfolding g by (auto dest: set_takeWhileD)
  have rst: "rest = [] \<or> \<not> idChar (hd rest)"
    unfolding rest_def using hd_dropWhile[of idChar r] by blast
  have left: "length (take n s) \<le> length pre'"
    if a: "alt' \<in> set ytAlternatives" and c: "idChar c" and e: "s = pre' @ alt' @ c # rest'"
    for pre' alt' c rest'
  proof (rule ccontr)
    assume "\<not> length (take n s) \<le> length pre'"
    then have "length pre' < n" using n by simp
    with lm have "matchHere ytAlternatives (drop (length pre') s) = None" by blast
    moreover have "drop (length pre') s = alt' @ c # rest'" by (subst e) simp
    ultimately have "matchHere ytAlternatives (alt' @ c # rest') = None" by simp
    with a have "\<not> (prefix alt' (alt' @ c # rest')
         \<and> takeWhile idChar (drop (length alt') (alt' @ c # rest')) \<noteq> [])"
      unfolding matchHere_None by blast
    with c show False by simp
  qed
  from dec alt gne all rst left
  show "\<exists>pre alt rest. s = pre @ alt @ g @ rest \<and> alt \<in> set ytAlternatives
        \<and> g \<noteq> [] \<and> (\<forall>c\<in>set g. idChar c) \<and> (rest = [] \<or> \<not> idChar (hd rest))
        \<and> (\<forall>pre' alt' c rest'. alt' \<in> set ytAlternatives \<and> idChar c
               \<and> s = pre' @ alt' @ c # rest' \<longrightarrow> length pre \<le> length pre')"
    by blast
next
  assume "\<exists>pre alt rest. s = pre @ alt @ g @ rest \<and> alt \<in> set ytAlternatives
        \<and> g \<noteq> [] \<and> (\<forall>c\<in>set g. idChar c) \<and> (rest = [] \<or> \<not> idChar (hd rest))
        \<and> (\<forall>pre' alt' c rest'. alt' \<in> set ytAlternatives \<and> idChar c
               \<and> s = pre' @ alt' @ c # rest' \<longrightarrow> length pre \<le> length pre')"
  then obtain pre alt rest where dec: "s = pre @ alt @ g @ rest"
    and alt: "alt \<in> set ytAlternatives" and gne: "g \<noteq> []"
    and all: "\<forall>c\<in>set g. idChar c" and rst: "rest = [] \<or> \<not> idChar (hd rest)"
    and left: "\<And>pre' alt' c rest'. alt' \<in> set ytAlternatives \<Longrightarrow> idChar c
               \<Longrightarrow> s = pre' @ alt' @ c # rest' \<Longrightarrow> length pre \<le> length pre'"
    by blast
  have tw: "takeWhile idChar (g @ rest) = g"
    using all rst by (cases rest) (auto simp: takeWhile_eq_all_conv)
  have dn: "drop (length pre) s = alt @ g @ rest" by (subst dec) simp
  have "matchHere ytAlternatives (alt @ g @ rest)
          = Some (takeWhile idChar (drop (length alt) (alt @ g @ rest)))"
    by (rule matchHere_unique[OF alt]) (simp_all add: tw gne)
  then have here: "matchHere ytAlternatives (drop (length pre) s) = Some g"
    using dn tw by simp
  have before: "matchHere ytAlternatives (drop m s) = None" if m: "m < length pre" for m
  proof (rule ccontr)
    assume "matchHere ytAlternatives (drop m s) \<noteq> None"
    then obtain alt' where a': "alt' \<in> set ytAlternatives"
      and h: "prefix alt' (drop m s) \<and> takeWhile idChar (drop (length alt') (drop m s)) \<noteq> []"
      unfolding matchHere_None by blast
    from h obtain c where c: "idChar c" and p: "prefix (alt' @ [c]) (drop m s)"
      unfolding shape_here by blast
    from p obtain rest' where "drop m s = alt' @ c # rest'" by (auto simp: prefix_def)
    then have "s = take m s @ alt' @ c # rest'"
      using append_take_drop_id[of m s] by simp
    from left[OF a' c this] have "length pre \<le> length (take m s)" .
    moreover have "length pre \<le> length s" by (subst dec) simp
    ultimately show False using m by simp
  qed
  have "length pre \<le> length s" by (subst dec) simp
  with here before show "ytExp_match s = Some g"
    unfolding ytExp_match_leftmost by blast
qed

text \<open>
  C4.  For every href: when it contains \<open>youtube.com\<close> or \<open>youtu.be\<close> the result of
  \<open>getVideoType\<close> is \<open>youtube\<close>; otherwise, when it contains \<open>vimeo.com\<close>, the result
  is \<open>external\<close>; otherwise it is \<open>undefined\<close>.  An href that matches patterns of both
  kinds is \<open>youtube\<close>, the first entry of the table.
\<close>

theorem getVideoType_classifies:
  "getVideoType href =
     (if sublist ''youtube.com'' href \<or> sublist ''youtu.be'' href then Some ''youtube''
      else if sublist ''vimeo.com'' href then Some ''external''
      else None)"
  by (simp add: getVideoType_def videoTypeMap_def test_iff_sublist)

text \<open>
  C5, as the specification states it, fails: an href that contains none of the four shapes
  \<open>?v=\<close>, \<open>&v=\<close>, \<open>/embed/\<close>, \<open>/v/\<close>, \<open>https://youtu.be/\<close> can still have an id,
  because the pattern has the further alternative \<open>/1/\<close>.
\<close>

theorem getYouTubeId_four_shapes_counterexample:
  "\<not> sublist ''?v='' ''https://example.com/1/foo''
   \<and> \<not> sublist ''&v='' ''https://example.com/1/foo''
   \<and> \<not> sublist ''/embed/'' ''https://example.com/1/foo''
   \<and> \<not> sublist ''/v/'' ''https://example.com/1/foo''
   \<and> \<not> sublist ''https://youtu.be/'' ''https://example.com/1/foo''
   \<and> getYouTubeId ''https://example.com/1/foo'' = Some ''foo''"
  unfolding test_iff_sublist [symmetric]
  by (simp add: getYouTubeId_def ytAlternatives_def idChar_def)

text \<open>
  C5, amended.  The pattern has seven literal alternatives: \<open>?v=\<close>, \<open>&v=\<close>, \<open>/embed/\<close>,
  \<open>/1/\<close>, \<open>/v/\<close>, \<open>https://www.youtu.be/\<close> and \<open>https://youtu.be/\<close>.  An
  occurrence of one of them counts when the next character is an id character, that is,
  none of \<open>&\<close>, line feed, \<open>?\<close> and \<open>#\<close>.  \<open>getYouTubeId\<close> returns \<open>null\<close> exactly
  for the hrefs without such an occurrence.  It returns \<open>ident\<close> exactly when \<open>ident\<close> is
  capturing group 1 of the leftmost match: the href is \<open>pre alt ident rest\<close> with \<open>alt\<close>
  one of the seven, \<open>ident\<close> a non-empty run of id characters that \<open>rest\<close> does not
  continue, and no such occurrence begins before \<open>alt\<close>.  The three examples of the
  specification evaluate as it says.
\<close>

theorem getYouTubeId_shapes:
  "(getYouTubeId href = None \<longleftrightarrow>
      \<not> (\<exists>alt \<in> {''?v='', ''&v='', ''/embed/'', ''/1/'', ''/v/'',
                    ''https://www.youtu.be/'', ''https://youtu.be/''}.
            \<exists>c. idChar c \<and> sublist (alt @ [c]) href))
   \<and> (\<forall>ident. getYouTubeId href = Some ident \<longleftrightarrow>
        (\<exists>pre alt rest. href = pre @ alt @ ident @ rest
           \<and> alt \<in> {''?v='', ''&v='', ''/embed/'', ''/1/'', ''/v/'',
                     ''https://www.youtu.be/'', ''https://youtu.be/''}
           \<and> ident \<noteq> [] \<and> (\<forall>c\<in>set ident. idChar c) \<and> (rest = [] \<or> \<not> idChar (hd rest))
           \<and> (\<forall>pre' alt' c rest'.
                  alt' \<in> {''?v='', ''&v='', ''/embed/'', ''/1/'', ''/v/'',
                           ''https://www.youtu.be/'', ''https://youtu.be/''}
                  \<and> idChar c \<and> href = pre' @ alt' @ c # rest'
                  \<longrightarrow> length pre \<le> length pre')))
   \<and> getYouTubeId ''https://www.youtube.com/watch?v=abc123'' = Some ''abc123''
   \<and> getYouTubeId ''https://youtu.be/xyz789'' = Some ''xyz789''
   \<and> getYouTubeId ''https://example.com/video.mp4'' = None"
proof (intro conjI)
  have alts: "set ytAlternatives = {''?v='', ''&v='', ''/embed/'', ''/1/'', ''/v/'',
                    ''https://www.youtu.be/'', ''https://youtu.be/''}"
    by (simp add: ytAlternatives_def)
  have "getYouTubeId href = None \<longleftrightarrow>
      \<not> (\<exists>alt \<in> set ytAlternatives. \<exists>c. idChar c \<and> sublist (alt @ [c]) href)"
    unfolding getYouTubeId_ytExp ytExp_match_None by blast
  then show "getYouTubeId href = None \<longleftrightarrow>
      \<not> (\<exists>alt \<in> {''?v='', ''&v='', ''/embed/'', ''/1/'', ''/v/'',
                    ''https://www.youtu.be/'', ''https://youtu.be/''}.
            \<exists>c. idChar c \<and> sublist (alt @ [c]) href)"
    unfolding alts .
  have "\<forall>ident. getYouTubeId href = Some ident \<longleftrightarrow>
        (\<exists>pre alt rest. href = pre @ alt @ ident @ rest
           \<and> alt \<in> set ytAlternatives
           \<and> ident \<noteq> [] \<and> (\<forall>c\<in>set ident. idChar c) \<and> (rest = [] \<or> \<not> idChar (hd rest))
           \<and> (\<forall>pre' alt' c rest'.
                  alt' \<in> set ytAlternatives
                  \<and> idChar c \<and> href = pre' @ alt' @ c # rest'
                  \<longrightarrow> length pre \<le> length pre'))"
    unfolding getYouTubeId_ytExp by (intro allI) (rule ytExp_match_Some_iff)
  then show "\<forall>ident. getYouTubeId href = Some ident \<longleftrightarrow>
        (\<exists>pre alt rest. href = pre @ alt @ ident @ rest
           \<and> alt \<in> {''?v='', ''&v='', ''/embed/'', ''/1/'', ''/v/'',
                     ''https://www.youtu.be/'', ''https://youtu.be/''}
           \<and> ident \<noteq> [] \<and> (\<forall>c\<in>set ident. idChar c) \<and> (rest = [] \<or> \<not> idChar (hd rest))
           \<and> (\<forall>pre' alt' c rest'.
                  alt' \<in> {''?v='', ''&v='', ''/embed/'', ''/1/'', ''/v/'',
                           ''https://www.youtu.be/'', ''https://youtu.be/''}
                  \<and> idChar c \<and> href = pre' @ alt' @ c # rest'
                  \<longrightarrow> length pre \<le> length pre'))"
    unfolding alts .
  show "getYouTubeId ''https://www.youtube.com/watch?v=abc123'' = Some ''abc123''"
    by (simp add: getYouTubeId_def ytAlternatives_def idChar_def)
  show "getYouTubeId ''https://youtu.be/xyz789'' = Some ''xyz789''"
    by (simp add: getYouTubeId_def ytAlternatives_def idChar_def)
  show "getYouTubeId ''https://example.com/video.mp4'' = None"
    by (simp add: getYouTubeId_def ytAlternatives_def idChar_def)
qed

theorem getYouTubeId_shapes_witness:
  "getYouTubeId ''https://youtu.be/abc?t=1'' = Some ''abc''"
proof -
  have alts: "set ytAlternatives = {''?v='', ''&v='', ''/embed/'', ''/1/'', ''/v/'',
                    ''https://www.youtu.be/'', ''https://youtu.be/''}"
    by (simp add: ytAlternatives_def)
  note t = getYouTubeId_shapes[of "''https://youtu.be/abc?t=1''", folded alts]
  from t have iff: "\<forall>ident. getYouTubeId ''https://youtu.be/abc?t=1'' = Some ident \<longleftrightarrow>
        (\<exists>pre alt rest. ''https://youtu.be/abc?t=1'' = pre @ alt @ ident @ rest
           \<and> alt \<in> set ytAlternatives
           \<and> ident \<noteq> [] \<and> (\<forall>c\<in>set ident. idChar c) \<and> (rest = [] \<or> \<not> idChar (hd rest))
           \<and> (\<forall>pre' alt' c rest'.
                  alt' \<in> set ytAlternatives
                  \<and> idChar c \<and> ''https://youtu.be/abc?t=1'' = pre' @ alt' @ c # rest'
                  \<longrightarrow> length pre \<le> length pre'))"
    by (elim conjE)
  have "''https://youtu.be/abc?t=1'' = [] @ ''https://youtu.be/'' @ ''abc'' @ ''?t=1''
           \<and> ''https://youtu.be/'' \<in> set ytAlternatives
           \<and> ''abc'' \<noteq> [] \<and> (\<forall>c\<in>set ''abc''. idChar c)
           \<and> (''?t=1'' = [] \<or> \<not> idChar (hd ''?t=1''))
           \<and> (\<forall>pre' alt' c rest'.
                  alt' \<in> set ytAlternatives
                  \<and> idChar c \<and> ''https://youtu.be/abc?t=1'' = pre' @ alt' @ c # rest'
                  \<longrightarrow> length ([]::string) \<le> length pre')"
    by (simp add: ytAlternatives_def idChar_def)
  then have "\<exists>pre alt rest. ''https://youtu.be/abc?t=1'' = pre @ alt @ ''abc'' @ rest
           \<and> alt \<in> set ytAlternatives
           \<and> ''abc'' \<noteq> [] \<and> (\<forall>c\<in>set ''abc''. idChar c) \<and> (rest = [] \<or> \<not> idChar (hd rest))
           \<and> (\<forall>pre' alt' c rest'.
                  alt' \<in> set ytAlternatives
                  \<and> idChar c \<and> ''https://youtu.be/abc?t=1'' = pre' @ alt' @ c # rest'
                  \<longrightarrow> length pre \<le> length pre')"
    by (intro exI)
  from iffD2[OF iff[rule_format] this] show ?thesis .
qed

text \<open>
  C10, as the specification states it, fails.  The href
  \<open>https://youtu.be/watch?v=abc&t=10\<close> has the query-parameter shape with the value
  \<open>abc\<close>, but the short form begins earlier in it, and the pattern takes the leftmost
  match: the id is \<open>watch\<close>.
\<close>

theorem query_parameter_not_leftmost_counterexample:
  "''https://youtu.be/watch?v=abc&t=10'' = ''https://youtu.be/watch'' @ ''?v='' @ ''abc'' @ ''&t=10''
   \<and> getYouTubeId ''https://youtu.be/watch?v=abc&t=10'' = Some ''watch''"
  by (simp add: getYouTubeId_def ytAlternatives_def idChar_def)

text \<open>
  C10, amended.  For every href, an id that \<open>getYouTubeId\<close> returns is a non-empty run
  of id characters that follows one of the alternatives and ends at the first subsequent
  \<open>&\<close>, line feed, \<open>?\<close> or \<open>#\<close>, or at the end of the href.  For an href
  \<open>pre ?v= ident rest\<close> (or with \<open>&v=\<close>), where \<open>ident\<close> is such a run and \<open>rest\<close> is
  empty or begins with one of the four characters, the id is \<open>ident\<close> whenever no
  alternative followed by an id character begins before that \<open>?v=\<close>, and in particular
  whenever no alternative occurs inside \<open>pre\<close>.
\<close>

theorem getYouTubeId_query_parameter:
  "(\<forall>ident. getYouTubeId href = Some ident \<longrightarrow>
       (\<exists>pre alt rest. href = pre @ alt @ ident @ rest \<and> alt \<in> set ytAlternatives
          \<and> ident \<noteq> [] \<and> (\<forall>c\<in>set ident. idChar c) \<and> (rest = [] \<or> \<not> idChar (hd rest))))
   \<and> (\<forall>pre q ident rest.
         href = pre @ q @ ident @ rest \<and> (q = ''?v='' \<or> q = ''&v='')
         \<and> ident \<noteq> [] \<and> (\<forall>c\<in>set ident. idChar c) \<and> (rest = [] \<or> \<not> idChar (hd rest))
         \<and> (\<forall>pre' alt c rest'. alt \<in> set ytAlternatives \<and> idChar c
                \<and> href = pre' @ alt @ c # rest' \<longrightarrow> length pre \<le> length pre')
         \<longrightarrow> getYouTubeId href = Some ident)
   \<and> (\<forall>pre q ident rest.
         href = pre @ q @ ident @ rest \<and> (q = ''?v='' \<or> q = ''&v='')
         \<and> ident \<noteq> [] \<and> (\<forall>c\<in>set ident. idChar c) \<and> (rest = [] \<or> \<not> idChar (hd rest))
         \<and> (\<forall>alt\<in>set ytAlternatives. \<not> sublist alt pre)
         \<longrightarrow> getYouTubeId href = Some ident)"
proof (intro conjI allI impI)
  fix ident assume "getYouTubeId href = Some ident"
  then obtain pre alt rest where "href = pre @ alt @ ident @ rest" "alt \<in> set ytAlternatives"
    "ident \<noteq> []" "\<forall>c\<in>set ident. idChar c" "rest = [] \<or> \<not> idChar (hd rest)"
    unfolding getYouTubeId_ytExp ytExp_match_Some_iff by (elim exE conjE)
  then show "\<exists>pre alt rest. href = pre @ alt @ ident @ rest \<and> alt \<in> set ytAlternatives
          \<and> ident \<noteq> [] \<and> (\<forall>c\<in>set ident. idChar c) \<and> (rest = [] \<or> \<not> idChar (hd rest))"
    by (intro exI conjI)
next
  fix pre q ident rest
  assume a: "href = pre @ q @ ident @ rest \<and> (q = ''?v='' \<or> q = ''&v='')
         \<and> ident \<noteq> [] \<and> (\<forall>c\<in>set ident. idChar c) \<and> (rest = [] \<or> \<not> idChar (hd rest))
         \<and> (\<forall>pre' alt c rest'. alt \<in> set ytAlternatives \<and> idChar c
                \<and> href = pre' @ alt @ c # rest' \<longrightarrow> length pre \<le> length pre')"
  then have "q = ''?v='' \<or> q = ''&v=''" by (elim conjE)
  then have q: "q \<in> set ytAlternatives" by (elim disjE) (simp_all add: ytAlternatives_def)
  from a have "href = pre @ q @ ident @ rest \<and> q \<in> set ytAlternatives
        \<and> ident \<noteq> [] \<and> (\<forall>c\<in>set ident. idChar c) \<and> (rest = [] \<or> \<not> idChar (hd rest))
        \<and> (\<forall>pre' alt' c rest'. alt' \<in> set ytAlternatives \<and> idChar c
               \<and> href = pre' @ alt' @ c # rest' \<longrightarrow> length pre \<le> length pre')"
    using q by (elim conjE) (intro conjI)
  then have "\<exists>pre alt rest. href = pre @ alt @ ident @ rest \<and> alt \<in> set ytAlternatives
        \<and> ident \<noteq> [] \<and> (\<forall>c\<in>set ident. idChar c) \<and> (rest = [] \<or> \<not> idChar (hd rest))
        \<and> (\<forall>pre' alt' c rest'. alt' \<in> set ytAlternatives \<and> idChar c
               \<and> href = pre' @ alt' @ c # rest' \<longrightarrow> length pre \<le> length pre')"
    by (intro exI)
  then show "getYouTubeId href = Some ident"
    unfolding getYouTubeId_ytExp ytExp_match_Some_iff .
next
  fix pre q ident rest
  assume a: "href = pre @ q @ ident @ rest \<and> (q = ''?v='' \<or> q = ''&v='')
         \<and> ident \<noteq> [] \<and> (\<forall>c\<in>set ident. idChar c) \<and> (rest = [] \<or> \<not> idChar (hd rest))
         \<and> (\<forall>alt\<in>set ytAlternatives. \<not> sublist alt pre)"
  then have "\<forall>alt\<in>set ytAlternatives. \<not> sublist alt ([] @ pre)"
    and "q = ''?v='' \<or> q = ''&v=''" and "ident \<noteq> []" and "\<forall>c\<in>set ident. idChar c"
    and "rest = [] \<or> \<not> idChar (hd rest)" and h: "href = pre @ q @ ident @ rest"
    by simp_all
  from ytExp_match_query[OF this(1-5)] show "getYouTubeId href = Some ident"
    unfolding getYouTubeId_ytExp h .
qed

theorem getYouTubeId_query_parameter_witness:
  "getYouTubeId ''https://www.youtube.com/watch?v=abc&t=10'' = Some ''abc''"
proof -
  have 1: "\<forall>alt\<in>set ytAlternatives. \<not> sublist alt ''https://www.youtube.com/watch''"
    unfolding test_iff_sublist [symmetric] by (simp add: ytAlternatives_def)
  have 2: "\<forall>c\<in>set ''abc''. idChar c" by (simp add: idChar_def)
  have 3: "''&t=10'' = [] \<or> \<not> idChar (hd ''&t=10'')" by (simp add: idChar_def)
  have 4: "''https://www.youtube.com/watch?v=abc&t=10''
             = ''https://www.youtube.com/watch'' @ ''?v='' @ ''abc'' @ ''&t=10''" by simp
  from getYouTubeId_query_parameter[of "''https://www.youtube.com/watch?v=abc&t=10''"]
  have "\<forall>pre q ident rest.
         ''https://www.youtube.com/watch?v=abc&t=10'' = pre @ q @ ident @ rest \<and> (q = ''?v='' \<or> q = ''&v='')
         \<and> ident \<noteq> [] \<and> (\<forall>c\<in>set ident. idChar c) \<and> (rest = [] \<or> \<not> idChar (hd rest))
         \<and> (\<forall>alt\<in>set ytAlternatives. \<not> sublist alt pre)
         \<longrightarrow> getYouTubeId ''https://www.youtube.com/watch?v=abc&t=10'' = Some ident"
    by (elim conjE)
  note imp = this[rule_format, of "''https://www.youtube.com/watch''" "''?v=''" "''abc''" "''&t=10''"]
  have "''https://www.youtube.com/watch?v=abc&t=10''
             = ''https://www.youtube.com/watch'' @ ''?v='' @ ''abc'' @ ''&t=10''
         \<and> (''?v='' = ''?v='' \<or> ''?v='' = ''&v='')
         \<and> ''abc'' \<noteq> [] \<and> (\<forall>c\<in>set ''abc''. idChar c) \<and> (''&t=10'' = [] \<or> \<not> idChar (hd ''&t=10''))
         \<and> (\<forall>alt\<in>set ytAlternatives. \<not> sublist alt ''https://www.youtube.com/watch'')"
    using 1 2 3 by simp
  then show ?thesis by (rule imp)
qed

section \<open>Facts about the tree operations\<close>

lemma getNode_append:
  "getNode b (p @ q) = (case getNode b p of Some n \<Rightarrow> getNode n q | None \<Rightarrow> None)"
proof (induction p arbitrary: b)
  case Nil
  show ?case by simp
next
  case (Cons i p)
  show ?case by (cases b) (simp_all add: Cons.IH)
qed

lemma getNode_updateNode_prefix:
  "getNode b p = Some n \<Longrightarrow> getNode (updateNode g (p @ q) b) p = Some (updateNode g q n)"
proof (induction p arbitrary: b)
  case Nil
  then show ?case by simp
next
  case (Cons i p)
  then show ?case by (cases b) (auto split: if_splits)
qed

lemma updateNode_invalid:
  "getNode b p = None \<Longrightarrow> updateNode g (p @ q) b = b"
proof (induction p arbitrary: b)
  case Nil
  then show ?case by simp
next
  case (Cons i p)
  then show ?case by (cases b) (auto split: if_splits simp: list_update_same_conv)
qed

lemma getElement_updateElement_same:
  "getElement (updateElement f p b) p = map_option f (getElement b p)"
proof (cases "getNode b p")
  case None
  then have "updateElement f p b = b"
    using updateNode_invalid[of b p "mapElement f" "[]"] by (simp add: updateElement_def)
  with None show ?thesis by (simp add: getElement_def)
next
  case (Some n)
  then have "getNode (updateElement f p b) p = Some (mapElement f n)"
    using getNode_updateNode_prefix[of b p n "mapElement f" "[]"] by (simp add: updateElement_def)
  with Some show ?thesis by (cases n) (simp_all add: getElement_def)
qed

text \<open>Updating below a node keeps the element at the node.\<close>

lemma updateNode_keeps_element:
  "q \<noteq> [] \<Longrightarrow> getNode b p = Some (Element e ch) \<Longrightarrow>
     \<exists>ch'. getNode (updateNode g (p @ q) b) p = Some (Element e ch')"
  using getNode_updateNode_prefix[of b p "Element e ch" g q]
  by (cases q) (auto split: if_splits)

lemma findNodes_anc:
  "(\<And>a a' e. P a e = P a' e) \<Longrightarrow> findNode P anc n = findNode P anc' n"
  "(\<And>a a' e. P a e = P a' e) \<Longrightarrow> findNodes P anc i ns = findNodes P anc' i ns"
proof (induction P anc n and P anc i ns arbitrary: anc' and anc' rule: findNode_findNodes.induct)
  case (1 P anc t)
  show ?case by simp
next
  case (2 P anc e ch)
  show ?case using 2(1)[of "e # anc'"] 2(2) by (auto simp: 2(2)[of anc e anc'])
next
  case (3 P anc i)
  show ?case by simp
next
  case (4 P anc i n ns)
  show ?case using 4(1)[of anc'] 4(2)[of anc'] 4(3) by (auto split: option.splits)
qed

lemma findNodes_list_update:
  "i < length ch \<Longrightarrow> findNode P anc x = findNode P anc (ch ! i) \<Longrightarrow>
     findNodes P anc k (ch[i := x]) = findNodes P anc k ch"
proof (induction ch arbitrary: i k)
  case Nil
  then show ?case by simp
next
  case (Cons n ns)
  then show ?case by (cases i) (auto split: option.splits)
qed

lemma findNode_updateElement:
  assumes anc: "\<And>a a' e. P a e = P a' e" and f: "\<And>a e. P a (f e) = P a e"
  shows "findNode P anc (updateElement f p n) = findNode P anc n
         \<and> findNodes P anc 0 (childNodes (updateElement f p n)) = findNodes P anc 0 (childNodes n)
         \<and> isElement (updateElement f p n) = isElement n"
proof (induction p arbitrary: n anc)
  case Nil
  show ?case
  proof (cases n)
    case (Text t)
    then show ?thesis by (simp add: updateElement_def)
  next
    case (Element e ch)
    have "findNodes P (f e # anc) 0 ch = findNodes P (e # anc) 0 ch"
      by (rule findNodes_anc(2)[OF anc])
    then show ?thesis using Element f by (simp add: updateElement_def)
  qed
next
  case (Cons i p)
  show ?case
  proof (cases n)
    case (Text t)
    then show ?thesis by (simp add: updateElement_def)
  next
    case (Element e ch)
    show ?thesis
    proof (cases "i < length ch")
      case False
      then show ?thesis using Element by (simp add: updateElement_def)
    next
      case True
      have IH: "findNode P a (updateElement f p (ch ! i)) = findNode P a (ch ! i)" for a
        using Cons.IH[of a "ch ! i"] by simp
      have "findNodes P a k (ch[i := updateElement f p (ch ! i)]) = findNodes P a k ch" for a k
        by (rule findNodes_list_update[OF True IH])
      then show ?thesis using Element True by (simp add: updateElement_def)
    qed
  qed
qed

lemma matches_Simple_anc: "matches (Simple sel) a e = matches (Simple sel) a' e"
  by simp

lemma querySelector_updateElement:
  assumes f: "\<And>e. matchesSimple sel (f e) = matchesSimple sel e"
  shows "querySelector (updateElement f (p @ q) b) p (Simple sel) = querySelector b p (Simple sel)"
proof (cases "getNode b p")
  case None
  then have "updateElement f (p @ q) b = b"
    by (simp add: updateElement_def updateNode_invalid)
  then show ?thesis by simp
next
  case (Some n)
  have g: "getNode (updateElement f (p @ q) b) p = Some (updateElement f q n)"
    using getNode_updateNode_prefix[OF Some] by (simp add: updateElement_def)
  have pres: "findNodes (matches (Simple sel)) a 0 (childNodes (updateElement f q n))
                = findNodes (matches (Simple sel)) a 0 (childNodes n)
              \<and> isElement (updateElement f q n) = isElement n" for a
    using findNode_updateElement[of "matches (Simple sel)" f a q n] f by simp
  have anc: "findNodes (matches (Simple sel)) a 0 ns = findNodes (matches (Simple sel)) a' 0 ns"
    for a a' ns
    by (rule findNodes_anc(2)) simp
  show ?thesis
  proof (cases n)
    case (Text t)
    with pres[of "[]"] have "\<exists>t'. updateElement f q n = Text t'"
      by (cases "updateElement f q n") auto
    then show ?thesis using Some g Text by (auto simp: querySelector_def)
  next
    case (Element e ch)
    with pres[of "[]"] obtain e' ch' where u: "updateElement f q n = Element e' ch'"
      by (cases "updateElement f q n") auto
    have "findNodes (matches (Simple sel)) a 0 ch' = findNodes (matches (Simple sel)) a' 0 ch" for a a'
      using pres[of a] u Element anc[of a ch a'] by simp
    then have "findNodes (matches (Simple sel)) (ancestorsOrSelf (updateElement f (p @ q) b) p) 0 ch'
        = findNodes (matches (Simple sel)) (ancestorsOrSelf b p) 0 ch" .
    then show ?thesis using Some g Element u by (simp add: querySelector_def)
  qed
qed

lemma findNode_valid:
  "findNode P anc n = Some p \<Longrightarrow> \<exists>e. getElement n p = Some e"
  "findNodes P anc i ns = Some p \<Longrightarrow>
     \<exists>j q e. p = (i + j) # q \<and> j < length ns \<and> getElement (ns ! j) q = Some e"
proof (induction P anc n and P anc i ns arbitrary: p and p rule: findNode_findNodes.induct)
  case (1 P anc t)
  then show ?case by simp
next
  case (2 P anc e ch)
  show ?case
  proof (cases "P anc e")
    case True
    with 2(2) show ?thesis by (simp add: getElement_def)
  next
    case False
    with 2(2) have "findNodes P (e # anc) 0 ch = Some p" by simp
    from 2(1)[OF False this] obtain j q e' where
      "p = j # q" "j < length ch" "getElement (ch ! j) q = Some e'" by auto
    then show ?thesis by (auto simp: getElement_def)
  qed
next
  case (3 P anc i)
  then show ?case by simp
next
  case (4 P anc i n ns)
  show ?case
  proof (cases "findNode P anc n")
    case None
    with 4(3) have "findNodes P anc (Suc i) ns = Some p" by simp
    from 4(2)[OF None this] obtain j q e where
      "p = (Suc i + j) # q" "j < length ns" "getElement (ns ! j) q = Some e" by auto
    then have "p = (i + Suc j) # q \<and> Suc j < length (n # ns) \<and> getElement ((n # ns) ! Suc j) q = Some e"
      by simp
    then show ?thesis by blast
  next
    case (Some r)
    with 4(3) have p: "p = i # r" by simp
    from 4(1)[OF Some] obtain e where "getElement n r = Some e" by auto
    with p have "p = (i + 0) # r \<and> 0 < length (n # ns) \<and> getElement ((n # ns) ! 0) r = Some e"
      by simp
    then show ?thesis by blast
  qed
qed

lemma querySelector_valid:
  assumes "querySelector b p sel = Some v"
  shows "\<exists>q e. v = p @ q \<and> q \<noteq> [] \<and> getElement b v = Some e"
proof -
  from assms obtain e ch r where n: "getNode b p = Some (Element e ch)"
    and r: "findNodes (matches sel) (ancestorsOrSelf b p) 0 ch = Some r" and v: "v = p @ r"
    by (auto simp: querySelector_def split: option.splits node.splits)
  from findNode_valid(2)[OF r] obtain j q e' where
    "r = j # q" "j < length ch" "getElement (ch ! j) q = Some e'" by auto
  then have "getElement b (p @ r) = Some e'"
    using n by (simp add: getElement_def getNode_append)
  with v \<open>r = j # q\<close> show ?thesis by auto
qed

lemma getElement_updateElement:
  "getElement (updateElement f p b) r =
     (if r = p then map_option f (getElement b r) else getElement b r)"
proof (induction p arbitrary: r b)
  case Nil
  show ?case
  proof (cases b)
    case (Text t)
    then show ?thesis by (cases r) (simp_all add: updateElement_def getElement_def)
  next
    case (Element e ch)
    then show ?thesis by (cases r) (simp_all add: updateElement_def getElement_def)
  qed
next
  case (Cons j p)
  show ?case
  proof (cases b)
    case (Text t)
    then show ?thesis by (cases r) (simp_all add: updateElement_def getElement_def)
  next
    case (Element e ch)
    show ?thesis
    proof (cases r)
      case Nil
      then show ?thesis using Element by (simp add: updateElement_def getElement_def)
    next
      case (Cons i r')
      have IH: "getElement (updateNode (mapElement f) p (ch ! j)) r' =
          (if r' = p then map_option f (getElement (ch ! j) r') else getElement (ch ! j) r')"
        using Cons.IH[where r=r' and b="ch ! j"] by (simp add: updateElement_def)
      show ?thesis using Element Cons IH
        by (auto simp: updateElement_def getElement_def nth_list_update)
    qed
  qed
qed

lemma getAttribute_updateElement:
  assumes "\<And>e. attributes (f e) = attributes e"
  shows "getAttribute (updateElement f p b) r name = getAttribute b r name"
  using assms
  by (cases "r = p"; cases "getElement b r") (simp_all add: getAttribute_def getElement_updateElement)

lemma contains_updateElement:
  assumes "\<And>e. (c \<in> set (classList (f e))) = (c \<in> set (classList e))"
  shows "contains (updateElement f p b) r c = contains b r c"
  using assms
  by (cases "r = p"; cases "getElement b r") (simp_all add: contains_def getElement_updateElement)

lemma querySelector_updateElement_root:
  "(\<And>e. matchesSimple sel (f e) = matchesSimple sel e) \<Longrightarrow>
     querySelector (updateElement f q b) [] (Simple sel) = querySelector b [] (Simple sel)"
  using querySelector_updateElement[of sel f "[]" q b] by simp

lemma querySelector_updateElement_self:
  "(\<And>e. matchesSimple sel (f e) = matchesSimple sel e) \<Longrightarrow>
     querySelector (updateElement f p b) p (Simple sel) = querySelector b p (Simple sel)"
  using querySelector_updateElement[of sel f p "[]" b] by simp

section \<open>The branches of \<open>toggleVideoOverlay\<close>\<close>

lemma toggle_no_modal:
  assumes "querySelector (block s) [] (Simple (Cls ''video-modal'')) = None"
  shows "toggleVideoOverlay s = Inl TypeError"
  unfolding toggleVideoOverlay_def by (simp only: assms option.case)

lemma toggle_no_content:
  assumes "querySelector (block s) [] (Simple (Cls ''video-modal'')) = Some modal"
      and "querySelector (block s) modal (Simple (Cls ''video-modal-content'')) = None"
  shows "toggleVideoOverlay s = Inl TypeError"
  unfolding toggleVideoOverlay_def by (simp only: assms option.case)

lemma toggle_close_youtube:
  assumes qm: "querySelector (block s) [] (Simple (Cls ''video-modal'')) = Some modal"
      and qc: "querySelector (block s) modal (Simple (Cls ''video-modal-content'')) = Some videoContent"
      and ty: "getAttribute (block s) videoContent ''data-videoType'' = Some ''youtube''"
      and op: "contains (block s) modal ''open''"
  shows "toggleVideoOverlay s =
     Inr (s\<lparr>block :=
              (case getElementById (updateElement (removeClass ''open'') modal (block s))
                      (ytFrame (getAttribute (block s) videoContent ''data-videoId'')) of
                 None \<Rightarrow> updateElement (removeClass ''open'') modal (block s)
               | Some iFrame \<Rightarrow>
                   removeChild iFrame (updateElement (removeClass ''open'') modal (block s))),
            sdkLog := (case player s of
                         None \<Rightarrow> sdkLog s
                       | Some p \<Rightarrow> sdkLog s @ [Called ''stopVideo''])\<rparr>)"
proof -
  let ?b1 = "updateElement (removeClass ''open'') modal (block s)"
  let ?id = "ytFrame (getAttribute (block s) videoContent ''data-videoId'')"
  have "toggleVideoOverlay s =
     (let s1 = s\<lparr>block := ?b1\<rparr>;
          s2 = (case player s1 of None \<Rightarrow> s1
                | Some p \<Rightarrow> s1\<lparr>sdkLog := sdkLog s1 @ [Called ''stopVideo'']\<rparr>)
      in (case getElementById (block s2) ?id of
            None \<Rightarrow> Inr s2
          | Some iFrame \<Rightarrow> Inr (s2\<lparr>block := removeChild iFrame (block s2)\<rparr>)))"
    unfolding toggleVideoOverlay_def
    by (simp only: qm qc op ty option.case if_True simp_thms Let_def)
  then show ?thesis
    by (cases "player s"; cases "getElementById ?b1 ?id") (simp_all add: Let_def)
qed

lemma toggle_close_directFile:
  assumes qm: "querySelector (block s) [] (Simple (Cls ''video-modal'')) = Some modal"
      and qc: "querySelector (block s) modal (Simple (Cls ''video-modal-content'')) = Some videoContent"
      and ty: "getAttribute (block s) videoContent ''data-videoType'' \<noteq> Some ''youtube''"
      and op: "contains (block s) modal ''open''"
  shows "toggleVideoOverlay s =
     (case querySelector (block s) modal (Simple (Tag ''video'')) of
        None \<Rightarrow> Inl TypeError
      | Some v \<Rightarrow>
          Inr (s\<lparr>block := updateElement (\<lambda>e. e\<lparr>currentTime := 0\<rparr>) v
                  (updateElement (\<lambda>e. e\<lparr>paused := True\<rparr>) v
                    (updateElement (removeClass ''open'') modal (block s)))\<rparr>))"
proof -
  let ?b1 = "updateElement (removeClass ''open'') modal (block s)"
  have q1: "querySelector ?b1 modal (Simple (Tag ''video''))
              = querySelector (block s) modal (Simple (Tag ''video''))"
    by (rule querySelector_updateElement_self) (simp add: removeClass_def)
  have unf: "toggleVideoOverlay s =
     (let s1 = s\<lparr>block := ?b1\<rparr>;
          s2 = (case querySelector (block s1) modal (Simple (Tag ''video'')) of
                  None \<Rightarrow> s1
                | Some v \<Rightarrow> s1\<lparr>block := updateElement (\<lambda>e. e\<lparr>paused := True\<rparr>) v (block s1)\<rparr>)
      in (case querySelector (block s2) modal (Simple (Tag ''video'')) of
            None \<Rightarrow> Inl TypeError
          | Some v \<Rightarrow> Inr (s2\<lparr>block := updateElement (\<lambda>e. e\<lparr>currentTime := 0\<rparr>) v (block s2)\<rparr>)))"
    unfolding toggleVideoOverlay_def
    by (simp only: qm qc op ty option.case if_True if_False simp_thms Let_def)
  show ?thesis
  proof (cases "querySelector (block s) modal (Simple (Tag ''video''))")
    case None
    then show ?thesis using unf q1 by (simp add: Let_def)
  next
    case (Some v)
    from querySelector_valid[OF Some] obtain q where v: "v = modal @ q" by blast
    have q2: "querySelector (updateElement (\<lambda>e. e\<lparr>paused := True\<rparr>) v ?b1) modal (Simple (Tag ''video''))
                = Some v"
      unfolding v
      using querySelector_updateElement[of "Tag ''video''" "\<lambda>e. e\<lparr>paused := True\<rparr>" modal q ?b1]
        q1 Some v by simp
    show ?thesis using unf q1 q2 Some by (simp add: Let_def)
  qed
qed

lemma toggle_open_youtube:
  assumes qm: "querySelector (block s) [] (Simple (Cls ''video-modal'')) = Some modal"
      and qc: "querySelector (block s) modal (Simple (Cls ''video-modal-content'')) = Some videoContent"
      and ty: "getAttribute (block s) videoContent ''data-videoType'' = Some ''youtube''"
      and op: "\<not> contains (block s) modal ''open''"
  shows "toggleVideoOverlay s =
     (let videoId = getAttribute (block s) videoContent ''data-videoId'';
          s2 = s\<lparr>block := setInnerHTML videoContent (ytFrameMarkup videoId)
                           (updateElement (addClass ''open'') modal (block s))\<rparr>
      in if YT s then Inr (loadYouTubePlayer (ytFrame videoId) videoId s2)
         else (case scripts s of
                 [] \<Rightarrow> Inl TypeError
               | firstScriptTag # others \<Rightarrow>
                   Inr (s2\<lparr>scripts := iframe_api # scripts s,
                           onYouTubePlayerAPIReady := Some (ytFrame videoId, videoId)\<rparr>)))"
  unfolding toggleVideoOverlay_def
  apply (simp only: qm qc op ty option.case if_True if_False simp_thms)
  apply (cases "scripts s"; simp add: Let_def)
  done

lemma toggle_open_directFile:
  assumes qm: "querySelector (block s) [] (Simple (Cls ''video-modal'')) = Some modal"
      and qc: "querySelector (block s) modal (Simple (Cls ''video-modal-content'')) = Some videoContent"
      and ty: "getAttribute (block s) videoContent ''data-videoType'' \<noteq> Some ''youtube''"
      and op: "\<not> contains (block s) modal ''open''"
  shows "toggleVideoOverlay s =
     Inr (s\<lparr>block :=
            (case querySelector (block s) modal (Simple (Tag ''video'')) of
               None \<Rightarrow> updateElement (addClass ''open'') modal (block s)
             | Some v \<Rightarrow> updateElement (\<lambda>e. e\<lparr>paused := False\<rparr>) v
                           (updateElement (addClass ''open'') modal (block s)))\<rparr>)"
proof -
  let ?b1 = "updateElement (addClass ''open'') modal (block s)"
  have q1: "querySelector ?b1 modal (Simple (Tag ''video''))
              = querySelector (block s) modal (Simple (Tag ''video''))"
    by (rule querySelector_updateElement_self) (simp add: addClass_def)
  have unf: "toggleVideoOverlay s =
     (let s1 = s\<lparr>block := ?b1\<rparr>
      in (case querySelector (block s1) modal (Simple (Tag ''video'')) of
            None \<Rightarrow> Inr s1
          | Some v \<Rightarrow> Inr (s1\<lparr>block := updateElement (\<lambda>e. e\<lparr>paused := False\<rparr>) v (block s1)\<rparr>)))"
    unfolding toggleVideoOverlay_def
    by (simp only: qm qc op ty option.case if_True if_False simp_thms Let_def)
  show ?thesis using unf q1
    by (cases "querySelector (block s) modal (Simple (Tag ''video''))") (simp_all add: Let_def)
qed

section \<open>The close transition of a direct-file modal\<close>

text \<open>
  C6.  In a block whose modal is open, is not a YouTube modal and has a \<open>video\<close> element,
  whatever position the video has reached, the next activation closes the modal, pauses
  that video and sets its position to 0; the activation after that (the reopen) succeeds
  and finds the video at position 0.
\<close>

theorem close_directFile_resets:
  assumes qm: "querySelector (block s) [] (Simple (Cls ''video-modal'')) = Some modal"
      and qc: "querySelector (block s) modal (Simple (Cls ''video-modal-content'')) = Some videoContent"
      and ty: "getAttribute (block s) videoContent ''data-videoType'' \<noteq> Some ''youtube''"
      and op: "contains (block s) modal ''open''"
      and qv: "querySelector (block s) modal (Simple (Tag ''video'')) = Some v"
  shows "\<exists>s' s''. toggleVideoOverlay s = Inr s'
           \<and> (\<exists>e. getElement (block s') v = Some e \<and> paused e \<and> currentTime e = 0)
           \<and> toggleVideoOverlay s' = Inr s''
           \<and> (\<exists>e. getElement (block s'') v = Some e \<and> \<not> paused e \<and> currentTime e = 0)"
proof -
  from querySelector_valid[OF qv] obtain q e0 where
    v: "v = modal @ q" and q: "q \<noteq> []" and e0: "getElement (block s) v = Some e0" by blast
  have vm: "v \<noteq> modal" using v q by simp
  define rm where "rm = removeClass ''open''"
  define pause where "pause = (\<lambda>e::element. e\<lparr>paused := True\<rparr>)"
  define rewind where "rewind = (\<lambda>e::element. e\<lparr>currentTime := 0\<rparr>)"
  define play where "play = (\<lambda>e::element. e\<lparr>paused := False\<rparr>)"
  define opn where "opn = addClass ''open''"
  define b1 where "b1 = updateElement rm modal (block s)"
  define b2 where "b2 = updateElement pause v b1"
  define b3 where "b3 = updateElement rewind v b2"
  define b4 where "b4 = updateElement opn modal b3"
  define b5 where "b5 = updateElement play v b4"
  have tag: "matchesSimple (Tag t) (f e) = matchesSimple (Tag t) e"
    if "f = rm \<or> f = pause \<or> f = rewind" for f t e
    using that by (auto simp: rm_def pause_def rewind_def removeClass_def)
  have cls: "matchesSimple (Cls c) (f e) = matchesSimple (Cls c) e"
    if "f = rm \<or> f = pause \<or> f = rewind" "c \<noteq> ''open''" for f c e
    using that by (auto simp: rm_def pause_def rewind_def removeClass_def)
  have att: "attributes (f e) = attributes e"
    if "f = rm \<or> f = pause \<or> f = rewind" for f e
    using that by (auto simp: rm_def pause_def rewind_def removeClass_def)
  have pres: "querySelector b3 p (Simple sel) = querySelector (block s) p (Simple sel)"
    if "p = [] \<or> p = modal" "\<And>f e. f = rm \<or> f = pause \<or> f = rewind \<Longrightarrow>
          matchesSimple sel (f e) = matchesSimple sel e" for p sel
  proof -
    have "\<exists>r r'. modal = p @ r \<and> v = p @ r'"
      using that(1) v by (elim disjE) simp_all
    then obtain r r' where r: "modal = p @ r" "v = p @ r'" by blast
    have "querySelector b1 p (Simple sel) = querySelector (block s) p (Simple sel)"
      unfolding b1_def r(1) by (rule querySelector_updateElement) (simp add: that(2))
    moreover have "querySelector b2 p (Simple sel) = querySelector b1 p (Simple sel)"
      unfolding b2_def r(2) by (rule querySelector_updateElement) (simp add: that(2))
    moreover have "querySelector b3 p (Simple sel) = querySelector b2 p (Simple sel)"
      unfolding b3_def r(2) by (rule querySelector_updateElement) (simp add: that(2))
    ultimately show ?thesis by simp
  qed
  have first: "toggleVideoOverlay s = Inr (s\<lparr>block := b3\<rparr>)"
    using toggle_close_directFile[OF qm qc ty op] qv
    by (simp add: b1_def b2_def b3_def rm_def pause_def rewind_def)
  have e3: "getElement b3 v = Some (rewind (pause e0))"
    using e0 vm by (simp add: b3_def b2_def b1_def getElement_updateElement)
  have qm3: "querySelector (block (s\<lparr>block := b3\<rparr>)) [] (Simple (Cls ''video-modal'')) = Some modal"
    using pres[of "[]" "Cls ''video-modal''"] cls qm by simp
  have qc3: "querySelector (block (s\<lparr>block := b3\<rparr>)) modal (Simple (Cls ''video-modal-content''))
               = Some videoContent"
    using pres[of modal "Cls ''video-modal-content''"] cls qc by simp
  have qv3: "querySelector (block (s\<lparr>block := b3\<rparr>)) modal (Simple (Tag ''video'')) = Some v"
    using pres[of modal "Tag ''video''"] tag qv by simp
  have "getAttribute b3 videoContent ''data-videoType''
          = getAttribute (block s) videoContent ''data-videoType''"
    unfolding b3_def b2_def b1_def
    by (simp add: getAttribute_updateElement att)
  then have ty3: "getAttribute (block (s\<lparr>block := b3\<rparr>)) videoContent ''data-videoType''
                    \<noteq> Some ''youtube''"
    using ty by simp
  have "contains b3 modal ''open'' = contains b1 modal ''open''"
    unfolding b3_def b2_def by (simp add: contains_updateElement rewind_def pause_def)
  moreover have "\<not> contains b1 modal ''open''"
    unfolding b1_def
    by (cases "getElement (block s) modal")
       (simp_all add: contains_def getElement_updateElement rm_def removeClass_def)
  ultimately have op3: "\<not> contains (block (s\<lparr>block := b3\<rparr>)) modal ''open''" by simp
  have second: "toggleVideoOverlay (s\<lparr>block := b3\<rparr>) = Inr (s\<lparr>block := b5\<rparr>)"
    using toggle_open_directFile[OF qm3 qc3 ty3 op3] qv3
    by (simp add: b4_def b5_def opn_def play_def)
  have e5: "getElement b5 v = Some (play (rewind (pause e0)))"
    using e3 vm by (simp add: b5_def b4_def getElement_updateElement)
  have r3: "paused (rewind (pause e0)) \<and> currentTime (rewind (pause e0)) = 0"
    by (simp add: rewind_def pause_def)
  have r5: "\<not> paused (play (rewind (pause e0))) \<and> currentTime (play (rewind (pause e0))) = 0"
    by (simp add: rewind_def pause_def play_def)
  show ?thesis
  proof (intro exI conjI)
    show "toggleVideoOverlay s = Inr (s\<lparr>block := b3\<rparr>)" by (rule first)
    show "getElement (block (s\<lparr>block := b3\<rparr>)) v = Some (rewind (pause e0))" using e3 by simp
    show "paused (rewind (pause e0))" using r3 by simp
    show "currentTime (rewind (pause e0)) = 0" using r3 by simp
    show "toggleVideoOverlay (s\<lparr>block := b3\<rparr>) = Inr (s\<lparr>block := b5\<rparr>)" by (rule second)
    show "getElement (block (s\<lparr>block := b5\<rparr>)) v = Some (play (rewind (pause e0)))" using e5 by simp
    show "\<not> paused (play (rewind (pause e0)))" using r5 by simp
    show "currentTime (play (rewind (pause e0))) = 0" using r5 by simp
  qed
qed

theorem close_directFile_resets_witness:
  "\<exists>s' s''.
     toggleVideoOverlay
       (playback [1, 1, 1, 0] 42
         (projr (thenDo (decorate (examplePage ''https://example.com/video.mp4'' False))
                   toggleVideoOverlay))) = Inr s'
     \<and> (\<exists>e. getElement (block s') [1, 1, 1, 0] = Some e \<and> paused e \<and> currentTime e = 0)
     \<and> toggleVideoOverlay s' = Inr s''
     \<and> (\<exists>e. getElement (block s'') [1, 1, 1, 0] = Some e \<and> \<not> paused e \<and> currentTime e = 0)"
proof (rule close_directFile_resets[where modal = "[1]" and videoContent = "[1, 1, 1]"])
  let ?s = "playback [1, 1, 1, 0] 42
         (projr (thenDo (decorate (examplePage ''https://example.com/video.mp4'' False))
                   toggleVideoOverlay))"
  show "querySelector (block ?s) [] (Simple (Cls ''video-modal'')) = Some [1]"
    by code_simp
  show "querySelector (block ?s) [1] (Simple (Cls ''video-modal-content'')) = Some [1, 1, 1]"
    by code_simp
  show "getAttribute (block ?s) [1, 1, 1] ''data-videoType'' \<noteq> Some ''youtube''"
    by code_simp
  show "contains (block ?s) [1] ''open''"
    by code_simp
  show "querySelector (block ?s) [1] (Simple (Tag ''video'')) = Some [1, 1, 1, 0]"
    by code_simp
qed

section \<open>The close transition of a YouTube modal\<close>

lemma getElementById_updateElement:
  assumes "\<And>e. attributes (f e) = attributes e"
  shows "getElementById (updateElement f p b) ident = getElementById b ident"
  unfolding getElementById_def
  using findNode_updateElement[of "\<lambda>anc e. map_of (attributes e) ''id'' = Some ident" f "[]" p b] assms
  by simp

lemma findNode_satisfies:
  "findNode (\<lambda>anc. Q) anc n = Some p \<Longrightarrow> \<exists>e. getElement n p = Some e \<and> Q e"
  "findNodes (\<lambda>anc. Q) anc i ns = Some p \<Longrightarrow>
     \<exists>j q e. p = (i + j) # q \<and> j < length ns \<and> getElement (ns ! j) q = Some e \<and> Q e"
proof (induction "\<lambda>anc::element list. Q" anc n and "\<lambda>anc::element list. Q" anc i ns
       arbitrary: p and p rule: findNode_findNodes.induct)
  case (1 anc t)
  then show ?case by simp
next
  case (2 anc e ch)
  show ?case
  proof (cases "Q e")
    case True
    with 2(2) show ?thesis by (simp add: getElement_def)
  next
    case False
    with 2(2) have "findNodes (\<lambda>anc. Q) (e # anc) 0 ch = Some p" by simp
    from 2(1)[OF False this] obtain j q e' where
      "p = j # q" "j < length ch" "getElement (ch ! j) q = Some e'" "Q e'" by auto
    then show ?thesis by (auto simp: getElement_def)
  qed
next
  case (3 anc i)
  then show ?case by simp
next
  case (4 anc i n ns)
  show ?case
  proof (cases "findNode (\<lambda>anc. Q) anc n")
    case None
    with 4(3) have "findNodes (\<lambda>anc. Q) anc (Suc i) ns = Some p" by simp
    from 4(2)[OF None this] obtain j q e where
      "p = (Suc i + j) # q" "j < length ns" "getElement (ns ! j) q = Some e" "Q e" by auto
    then have "p = (i + Suc j) # q \<and> Suc j < length (n # ns)
                 \<and> getElement ((n # ns) ! Suc j) q = Some e \<and> Q e"
      by simp
    then show ?thesis by blast
  next
    case (Some r)
    with 4(3) have p: "p = i # r" by simp
    from 4(1)[OF Some] obtain e where "getElement n r = Some e" "Q e" by auto
    with p have "p = (i + 0) # r \<and> 0 < length (n # ns)
                   \<and> getElement ((n # ns) ! 0) r = Some e \<and> Q e"
      by simp
    then show ?thesis by blast
  qed
qed

lemma getElementById_valid:
  assumes "getElementById b ident = Some f"
  shows "f \<noteq> [] \<and> getAttribute b f ''id'' = Some ident"
proof -
  from assms have r: "findNodes (\<lambda>anc e. map_of (attributes e) ''id'' = Some ident) [] 0 (childNodes b) = Some f"
    by (simp add: getElementById_def)
  from findNode_satisfies(2)[OF r] obtain j q e where
    f: "f = j # q" and j: "j < length (childNodes b)"
    and e: "getElement (childNodes b ! j) q = Some e" and a: "map_of (attributes e) ''id'' = Some ident"
    by auto
  have "getElement b f = Some e"
    using f j e by (cases b) (simp_all add: getElement_def)
  then show ?thesis using f a by (simp add: getAttribute_def)
qed

lemma parent_of_element:
  assumes "getElement b f = Some x" "f \<noteq> []"
  shows "\<exists>e ch. getNode b (butlast f) = Some (Element e ch) \<and> last f < length ch"
proof -
  have f: "f = butlast f @ [last f]" using assms(2) by simp
  from assms(1) have "getNode b (butlast f @ [last f]) \<noteq> None"
    using f by (auto simp: getElement_def split: option.splits)
  then obtain n where n: "getNode b (butlast f) = Some n" and c: "getNode n [last f] \<noteq> None"
    by (auto simp: getNode_append split: option.splits)
  from c show ?thesis using n by (cases n) (auto split: if_splits)
qed

lemma getNode_removeChild_parent:
  assumes "getNode b (butlast f) = Some (Element e ch)" "f \<noteq> []"
  shows "getNode (removeChild f b) (butlast f) = Some (Element e (dropNth (last f) ch))"
  using getNode_updateNode_prefix[OF assms(1), of _ "[]"] assms(2)
  by (simp add: removeChild_def)

lemma getNode_updateElement_below:
  assumes "q \<noteq> []"
  shows "getNode (updateElement f p b) (p @ q) = getNode b (p @ q)"
proof (cases "getNode b p")
  case None
  then show ?thesis
    using updateNode_invalid[of b p "mapElement f" "[]"] by (simp add: updateElement_def)
next
  case (Some n)
  then have "getNode (updateElement f p b) p = Some (mapElement f n)"
    using getNode_updateNode_prefix[of b p n "mapElement f" "[]"] by (simp add: updateElement_def)
  moreover have "getNode (mapElement f n) q = getNode n q"
    using assms by (cases n; cases q) simp_all
  ultimately show ?thesis using Some by (simp add: getNode_append)
qed

lemma getElement_updateNode_above:
  assumes el: "\<And>e ch. \<exists>ch'. g (Element e ch) = Element e ch'"
      and tx: "\<And>t. g (Text t) = Text t"
  shows "getElement (updateNode g (p @ r) b) p = getElement b p"
proof (cases "getNode b p")
  case None
  then show ?thesis by (simp add: updateNode_invalid)
next
  case (Some n)
  have g: "getNode (updateNode g (p @ r) b) p = Some (updateNode g r n)"
    by (rule getNode_updateNode_prefix[OF Some])
  have "getElement (updateNode g r n) [] = getElement n []"
  proof (cases n)
    case (Text t)
    then show ?thesis using tx by (cases r) (simp_all add: getElement_def)
  next
    case (Element e ch)
    show ?thesis
    proof (cases r)
      case Nil
      from el[of e ch] obtain ch' where "g (Element e ch) = Element e ch'" by blast
      then show ?thesis using Element Nil by (simp add: getElement_def)
    next
      case (Cons i r')
      then show ?thesis using Element by (simp add: getElement_def)
    qed
  qed
  then show ?thesis using g Some by (simp add: getElement_def)
qed

lemma getElement_removeChild_above:
  assumes "q \<noteq> []"
  shows "getElement (removeChild (p @ q) b) p = getElement b p"
proof -
  have "removeChild (p @ q) b
          = updateNode (\<lambda>n. setChildNodes (dropNth (last q) (childNodes n)) n) (p @ butlast q) b"
    using assms by (simp add: removeChild_def butlast_append)
  moreover have "getElement (updateNode (\<lambda>n. setChildNodes (dropNth (last q) (childNodes n)) n)
                    (p @ butlast q) b) p = getElement b p"
    by (rule getElement_updateNode_above) simp_all
  ultimately show ?thesis by simp
qed

text \<open>
  C9.  On the close transition of a YouTube modal: the transition succeeds; the module
  variable \<open>player\<close> keeps its value; with no player nothing is asked of the external
  script, and with a player the only call is \<open>stopVideo\<close> (never a destroy); without an
  element of id \<open>ytFrame-<videoId>\<close> the tree changes only by the class of the modal, and
  with one, the first such element is removed from the child nodes of its parent.
\<close>

theorem close_youtube_stops_and_removes:
  assumes qm: "querySelector (block s) [] (Simple (Cls ''video-modal'')) = Some modal"
      and qc: "querySelector (block s) modal (Simple (Cls ''video-modal-content'')) = Some videoContent"
      and ty: "getAttribute (block s) videoContent ''data-videoType'' = Some ''youtube''"
      and op: "contains (block s) modal ''open''"
  shows "\<exists>s'. toggleVideoOverlay s = Inr s'
     \<and> player s' = player s
     \<and> (player s = None \<longrightarrow> sdkLog s' = sdkLog s)
     \<and> (player s \<noteq> None \<longrightarrow> sdkLog s' = sdkLog s @ [Called ''stopVideo''])
     \<and> (getElementById (block s) (ytFrame (getAttribute (block s) videoContent ''data-videoId'')) = None
          \<longrightarrow> block s' = updateElement (removeClass ''open'') modal (block s))
     \<and> (\<forall>iFrame.
           getElementById (block s) (ytFrame (getAttribute (block s) videoContent ''data-videoId''))
             = Some iFrame \<longrightarrow>
           getAttribute (block s) iFrame ''id''
             = Some (ytFrame (getAttribute (block s) videoContent ''data-videoId''))
           \<and> (\<exists>e ch. getNode (updateElement (removeClass ''open'') modal (block s)) (butlast iFrame)
                         = Some (Element e ch)
                    \<and> last iFrame < length ch
                    \<and> getNode (block s') (butlast iFrame)
                         = Some (Element e (dropNth (last iFrame) ch))))"
proof -
  let ?b1 = "updateElement (removeClass ''open'') modal (block s)"
  let ?id = "ytFrame (getAttribute (block s) videoContent ''data-videoId'')"
  let ?s' = "s\<lparr>block := (case getElementById ?b1 ?id of None \<Rightarrow> ?b1
                            | Some iFrame \<Rightarrow> removeChild iFrame ?b1),
                sdkLog := (case player s of None \<Rightarrow> sdkLog s
                           | Some p \<Rightarrow> sdkLog s @ [Called ''stopVideo''])\<rparr>"
  have t: "toggleVideoOverlay s = Inr ?s'"
    by (rule toggle_close_youtube[OF qm qc ty op])
  have byId: "getElementById ?b1 ?id = getElementById (block s) ?id"
    by (rule getElementById_updateElement) (simp add: removeClass_def)
  have rem: "getAttribute (block s) iFrame ''id'' = Some ?id
           \<and> (\<exists>e ch. getNode ?b1 (butlast iFrame) = Some (Element e ch)
                    \<and> last iFrame < length ch
                    \<and> getNode (block ?s') (butlast iFrame)
                         = Some (Element e (dropNth (last iFrame) ch)))"
    if f: "getElementById (block s) ?id = Some iFrame" for iFrame
  proof -
    from getElementById_valid[OF f] have ne: "iFrame \<noteq> []"
      and idat: "getAttribute (block s) iFrame ''id'' = Some ?id" by simp_all
    from getElementById_valid[of ?b1 ?id iFrame] byId f
    have "getAttribute ?b1 iFrame ''id'' = Some ?id" by simp
    then obtain x where "getElement ?b1 iFrame = Some x"
      by (auto simp: getAttribute_def split: option.splits)
    from parent_of_element[OF this ne] obtain e ch where
      par: "getNode ?b1 (butlast iFrame) = Some (Element e ch)" and len: "last iFrame < length ch"
      by blast
    have "getNode (removeChild iFrame ?b1) (butlast iFrame)
            = Some (Element e (dropNth (last iFrame) ch))"
      by (rule getNode_removeChild_parent[OF par ne])
    then have "getNode (block ?s') (butlast iFrame) = Some (Element e (dropNth (last iFrame) ch))"
      using byId f by simp
    with par len idat show ?thesis by blast
  qed
  have log1: "player s = None \<longrightarrow> sdkLog ?s' = sdkLog s" by simp
  have log2: "player s \<noteq> None \<longrightarrow> sdkLog ?s' = sdkLog s @ [Called ''stopVideo'']" by auto
  have none: "getElementById (block s) ?id = None \<longrightarrow> block ?s' = ?b1"
    using byId by simp
  have pl: "player ?s' = player s" by simp
  show ?thesis
    apply (rule exI[of _ ?s'])
    apply (intro conjI)
         apply (rule t)
        apply (rule pl)
       apply (rule log1)
      apply (rule log2)
     apply (rule none)
    apply (intro allI impI)
    apply (erule rem)
    done
qed

theorem close_youtube_stops_and_removes_witness:
  "\<exists>s'. toggleVideoOverlay
            (projr (thenDo (decorate (examplePage ''https://youtu.be/dQw4w9WgXcQ'' True))
                      toggleVideoOverlay)) = Inr s'
     \<and> sdkLog s' =
         sdkLog (projr (thenDo (decorate (examplePage ''https://youtu.be/dQw4w9WgXcQ'' True))
                          toggleVideoOverlay)) @ [Called ''stopVideo'']
     \<and> getNode (block s') [1, 1, 1]
         = Some (Element ((newElement ''div'')
                   \<lparr>classList := [''video-modal-content''],
                    attributes := [(''data-ytid'', ''dQw4w9WgXcQ''), (''data-videoType'', ''youtube''),
                                   (''data-videoId'', ''dQw4w9WgXcQ'')]\<rparr>) [])"
proof -
  let ?S = "projr (thenDo (decorate (examplePage ''https://youtu.be/dQw4w9WgXcQ'' True))
                      toggleVideoOverlay)"
  have h1: "querySelector (block ?S) [] (Simple (Cls ''video-modal'')) = Some [1]"
    by code_simp
  have h2: "querySelector (block ?S) [1] (Simple (Cls ''video-modal-content'')) = Some [1, 1, 1]"
    by code_simp
  have h3: "getAttribute (block ?S) [1, 1, 1] ''data-videoType'' = Some ''youtube''"
    by code_simp
  have h4: "contains (block ?S) [1] ''open''"
    by code_simp
  have pl: "player ?S \<noteq> None"
    by code_simp
  have fr: "getElementById (block ?S) (ytFrame (getAttribute (block ?S) [1, 1, 1] ''data-videoId''))
              = Some [1, 1, 1, 0]"
    by code_simp
  have par: "getNode (updateElement (removeClass ''open'') [1] (block ?S)) (butlast [1, 1, 1, 0])
         = Some (Element ((newElement ''div'')
                   \<lparr>classList := [''video-modal-content''],
                    attributes := [(''data-ytid'', ''dQw4w9WgXcQ''), (''data-videoType'', ''youtube''),
                                   (''data-videoId'', ''dQw4w9WgXcQ'')]\<rparr>)
                  (ytFrameMarkup (Some ''dQw4w9WgXcQ'')))"
    by code_simp
  from close_youtube_stops_and_removes[OF h1 h2 h3 h4] obtain s' where
    t: "toggleVideoOverlay ?S = Inr s'"
    and lg: "player ?S \<noteq> None \<longrightarrow> sdkLog s' = sdkLog ?S @ [Called ''stopVideo'']"
    and rm: "\<forall>iFrame.
           getElementById (block ?S) (ytFrame (getAttribute (block ?S) [1, 1, 1] ''data-videoId''))
             = Some iFrame \<longrightarrow>
           getAttribute (block ?S) iFrame ''id''
             = Some (ytFrame (getAttribute (block ?S) [1, 1, 1] ''data-videoId''))
           \<and> (\<exists>e ch. getNode (updateElement (removeClass ''open'') [1] (block ?S)) (butlast iFrame)
                         = Some (Element e ch)
                    \<and> last iFrame < length ch
                    \<and> getNode (block s') (butlast iFrame)
                         = Some (Element e (dropNth (last iFrame) ch)))"
    by blast
  from rm fr obtain e ch where
    p1: "getNode (updateElement (removeClass ''open'') [1] (block ?S)) (butlast [1, 1, 1, 0])
           = Some (Element e ch)"
    and p2: "getNode (block s') (butlast [1, 1, 1, 0]) = Some (Element e (dropNth (last [1, 1, 1, 0]) ch))"
    by blast
  from p1 par have "e = (newElement ''div'')
                   \<lparr>classList := [''video-modal-content''],
                    attributes := [(''data-ytid'', ''dQw4w9WgXcQ''), (''data-videoType'', ''youtube''),
                                   (''data-videoId'', ''dQw4w9WgXcQ'')]\<rparr>"
    and "ch = ytFrameMarkup (Some ''dQw4w9WgXcQ'')" by simp_all
  with p2 have "getNode (block s') [1, 1, 1]
         = Some (Element ((newElement ''div'')
                   \<lparr>classList := [''video-modal-content''],
                    attributes := [(''data-ytid'', ''dQw4w9WgXcQ''), (''data-videoType'', ''youtube''),
                                   (''data-videoId'', ''dQw4w9WgXcQ'')]\<rparr>) [])"
    by (simp add: ytFrameMarkup_def)
  with t lg pl show ?thesis by blast
qed

text \<open>
  C3, as the specification states it, fails.  The only operation is the toggle, and on an
  open modal it takes the close branch: after decoration with the external script present,
  the first activation opens the modal and constructs a player; the second activation, on
  the open modal, leaves the modal closed and without hosting container, and the trace
  has the one construction and a \<open>stopVideo\<close>.
\<close>

theorem open_on_open_modal_counterexample:
  "map_sum id (\<lambda>s. (contains (block s) [1] ''open'', sdkLog s))
     (thenDo (decorate (examplePage ''https://youtu.be/dQw4w9WgXcQ'' True)) toggleVideoOverlay)
   = Inr (True,
          [Constructed \<lparr>playerElement = ''ytFrame-dQw4w9WgXcQ'', playerVideoId = Some ''dQw4w9WgXcQ'',
                         playerStart = 0, playerOnReady = True\<rparr>])
   \<and> map_sum id (\<lambda>s. (contains (block s) [1] ''open'', sdkLog s,
                        getElementById (block s) ''ytFrame-dQw4w9WgXcQ''))
     (thenDo (thenDo (decorate (examplePage ''https://youtu.be/dQw4w9WgXcQ'' True)) toggleVideoOverlay)
        toggleVideoOverlay)
   = Inr (False,
          [Constructed \<lparr>playerElement = ''ytFrame-dQw4w9WgXcQ'', playerVideoId = Some ''dQw4w9WgXcQ'',
                         playerStart = 0, playerOnReady = True\<rparr>,
           Called ''stopVideo''],
          None)"
  by code_simp

text \<open>
  C3, amended.  An activation on an open YouTube modal runs the close branch, for every
  block.  It succeeds.  What it asks of the external script is \<open>stopVideo\<close> when the
  module variable \<open>player\<close> holds a player and nothing otherwise, so the trace gains no
  construction; \<open>player\<close>, the script elements, \<open>window.YT\<close> and the stored callback are
  unchanged.  The tree afterwards is the tree before with the class \<open>open\<close> removed from
  the modal and, when an element has the id \<open>ytFrame-<videoId>\<close>, the first such element
  removed from its parent; nothing is written into the content pane.  When there is no
  such element, or it lies inside the modal, the modal is not open afterwards; when it is
  a child of the content pane, where the open transition puts it, the pane loses exactly
  that child.
\<close>

theorem toggle_on_open_youtube_closes:
  assumes qm: "querySelector (block s) [] (Simple (Cls ''video-modal'')) = Some modal"
      and qc: "querySelector (block s) modal (Simple (Cls ''video-modal-content'')) = Some videoContent"
      and ty: "getAttribute (block s) videoContent ''data-videoType'' = Some ''youtube''"
      and op: "contains (block s) modal ''open''"
  shows "\<exists>s'. toggleVideoOverlay s = Inr s'
     \<and> sdkLog s' = sdkLog s @ (case player s of None \<Rightarrow> [] | Some p \<Rightarrow> [Called ''stopVideo''])
     \<and> player s' = player s
     \<and> scripts s' = scripts s
     \<and> YT s' = YT s
     \<and> onYouTubePlayerAPIReady s' = onYouTubePlayerAPIReady s
     \<and> block s' =
         (case getElementById (block s) (ytFrame (getAttribute (block s) videoContent ''data-videoId'')) of
            None \<Rightarrow> updateElement (removeClass ''open'') modal (block s)
          | Some iFrame \<Rightarrow> removeChild iFrame (updateElement (removeClass ''open'') modal (block s)))
     \<and> (getElementById (block s) (ytFrame (getAttribute (block s) videoContent ''data-videoId'')) = None
          \<or> (\<exists>q. q \<noteq> [] \<and>
                getElementById (block s) (ytFrame (getAttribute (block s) videoContent ''data-videoId''))
                  = Some (modal @ q))
         \<longrightarrow> \<not> contains (block s') modal ''open'')
     \<and> (\<forall>j. getElementById (block s) (ytFrame (getAttribute (block s) videoContent ''data-videoId''))
                = Some (videoContent @ [j])
           \<longrightarrow> (\<exists>e ch. getNode (block s) videoContent = Some (Element e ch)
                    \<and> j < length ch
                    \<and> getNode (block s') videoContent = Some (Element e (dropNth j ch))))"
proof -
  let ?b1 = "updateElement (removeClass ''open'') modal (block s)"
  let ?id = "ytFrame (getAttribute (block s) videoContent ''data-videoId'')"
  let ?s' = "s\<lparr>block := (case getElementById ?b1 ?id of None \<Rightarrow> ?b1
                            | Some iFrame \<Rightarrow> removeChild iFrame ?b1),
                sdkLog := (case player s of None \<Rightarrow> sdkLog s
                           | Some p \<Rightarrow> sdkLog s @ [Called ''stopVideo''])\<rparr>"
  have t: "toggleVideoOverlay s = Inr ?s'"
    by (rule toggle_close_youtube[OF qm qc ty op])
  have byId: "getElementById ?b1 ?id = getElementById (block s) ?id"
    by (rule getElementById_updateElement) (simp add: removeClass_def)
  from querySelector_valid[OF qc] obtain c ec where
    vc: "videoContent = modal @ c" and c: "c \<noteq> []" and ec: "getElement (block s) videoContent = Some ec"
    by blast
  from ec obtain chc where nc: "getNode (block s) videoContent = Some (Element ec chc)"
    by (auto simp: getElement_def split: option.splits node.splits)
  have nc1: "getNode ?b1 videoContent = Some (Element ec chc)"
    using getNode_updateElement_below[OF c, of "removeClass ''open''" modal "block s"] nc vc by simp
  from op obtain em where em: "getElement (block s) modal = Some em"
    by (auto simp: contains_def split: option.splits)
  have em1: "getElement ?b1 modal = Some (removeClass ''open'' em)"
    using em by (simp add: getElement_updateElement)
  have closed1: "\<not> contains ?b1 modal ''open''"
    using em1 by (simp add: contains_def removeClass_def)
  have lg: "sdkLog ?s' = sdkLog s @ (case player s of None \<Rightarrow> [] | Some p \<Rightarrow> [Called ''stopVideo''])"
    by (cases "player s") simp_all
  have bl: "block ?s' = (case getElementById (block s) ?id of None \<Rightarrow> ?b1
                          | Some iFrame \<Rightarrow> removeChild iFrame ?b1)"
    using byId by simp
  have cl: "\<not> contains (block ?s') modal ''open''"
    if "getElementById (block s) ?id = None
        \<or> (\<exists>q. q \<noteq> [] \<and> getElementById (block s) ?id = Some (modal @ q))"
    using that
  proof
    assume "getElementById (block s) ?id = None"
    with bl closed1 show ?thesis by simp
  next
    assume "\<exists>q. q \<noteq> [] \<and> getElementById (block s) ?id = Some (modal @ q)"
    then obtain q where q: "q \<noteq> []" and f: "getElementById (block s) ?id = Some (modal @ q)"
      by blast
    have "getElement (removeChild (modal @ q) ?b1) modal = getElement ?b1 modal"
      by (rule getElement_removeChild_above[OF q])
    with bl f em1 show ?thesis by (simp add: contains_def removeClass_def)
  qed
  have rm: "\<exists>e ch. getNode (block s) videoContent = Some (Element e ch)
                    \<and> j < length ch
                    \<and> getNode (block ?s') videoContent = Some (Element e (dropNth j ch))"
    if f: "getElementById (block s) ?id = Some (videoContent @ [j])" for j
  proof -
    from getElementById_valid[OF f] obtain x where "getElement (block s) (videoContent @ [j]) = Some x"
      by (auto simp: getAttribute_def split: option.splits)
    from parent_of_element[OF this] nc have j: "j < length chc" by simp
    have "getNode (removeChild (videoContent @ [j]) ?b1) videoContent
            = Some (Element ec (dropNth j chc))"
      using getNode_removeChild_parent[of ?b1 "videoContent @ [j]" ec chc] nc1 by simp
    with bl f have "getNode (block ?s') videoContent = Some (Element ec (dropNth j chc))" by simp
    with nc j show ?thesis by blast
  qed
  have fr: "player ?s' = player s" "scripts ?s' = scripts s" "YT ?s' = YT s"
    "onYouTubePlayerAPIReady ?s' = onYouTubePlayerAPIReady s" by simp_all
  show ?thesis
    apply (rule exI[of _ ?s'])
    apply (intro conjI)
            apply (rule t)
           apply (rule lg)
          apply (rule fr(1))
         apply (rule fr(2))
        apply (rule fr(3))
       apply (rule fr(4))
      apply (rule bl)
     apply (rule impI)
     apply (erule cl)
    apply (intro allI impI)
    apply (erule rm)
    done
qed

theorem toggle_on_open_youtube_closes_witness:
  "\<exists>s'. toggleVideoOverlay
            (projr (thenDo (decorate (examplePage ''https://youtu.be/dQw4w9WgXcQ'' True))
                      toggleVideoOverlay)) = Inr s'
     \<and> \<not> contains (block s') [1] ''open''
     \<and> sdkLog s' =
         [Constructed \<lparr>playerElement = ''ytFrame-dQw4w9WgXcQ'', playerVideoId = Some ''dQw4w9WgXcQ'',
                        playerStart = 0, playerOnReady = True\<rparr>,
          Called ''stopVideo'']
     \<and> scripts s' = [''/scripts/scripts.js'']"
proof -
  let ?S = "projr (thenDo (decorate (examplePage ''https://youtu.be/dQw4w9WgXcQ'' True))
                      toggleVideoOverlay)"
  have h1: "querySelector (block ?S) [] (Simple (Cls ''video-modal'')) = Some [1]"
    by code_simp
  have h2: "querySelector (block ?S) [1] (Simple (Cls ''video-modal-content'')) = Some [1, 1, 1]"
    by code_simp
  have h3: "getAttribute (block ?S) [1, 1, 1] ''data-videoType'' = Some ''youtube''"
    by code_simp
  have h4: "contains (block ?S) [1] ''open''"
    by code_simp
  have fr: "getElementById (block ?S) (ytFrame (getAttribute (block ?S) [1, 1, 1] ''data-videoId''))
              = Some ([1] @ [1, 1, 0])"
    by code_simp
  have sc: "scripts ?S = [''/scripts/scripts.js'']"
    by code_simp
  have lg: "sdkLog ?S @ (case player ?S of None \<Rightarrow> [] | Some p \<Rightarrow> [Called ''stopVideo''])
     = [Constructed \<lparr>playerElement = ''ytFrame-dQw4w9WgXcQ'', playerVideoId = Some ''dQw4w9WgXcQ'',
                        playerStart = 0, playerOnReady = True\<rparr>,
          Called ''stopVideo'']"
    by code_simp
  have q: "getElementById (block ?S) (ytFrame (getAttribute (block ?S) [1, 1, 1] ''data-videoId'')) = None
          \<or> (\<exists>q. q \<noteq> [] \<and>
                getElementById (block ?S) (ytFrame (getAttribute (block ?S) [1, 1, 1] ''data-videoId''))
                  = Some ([1] @ q))"
    using fr by blast
  from toggle_on_open_youtube_closes[OF h1 h2 h3 h4] obtain s' where
    "toggleVideoOverlay ?S = Inr s'"
    "sdkLog s' = sdkLog ?S @ (case player ?S of None \<Rightarrow> [] | Some p \<Rightarrow> [Called ''stopVideo''])"
    "scripts s' = scripts ?S"
    "getElementById (block ?S) (ytFrame (getAttribute (block ?S) [1, 1, 1] ''data-videoId'')) = None
          \<or> (\<exists>q. q \<noteq> [] \<and>
                getElementById (block ?S) (ytFrame (getAttribute (block ?S) [1, 1, 1] ''data-videoId''))
                  = Some ([1] @ q))
         \<longrightarrow> \<not> contains (block s') [1] ''open''"
    by blast
  with sc lg q show ?thesis by auto
qed

section \<open>Injection of the external script\<close>

lemma loadYouTubePlayer_frame:
  "scripts (loadYouTubePlayer el vid s) = scripts s"
  "YT (loadYouTubePlayer el vid s) = YT s"
  by (simp_all add: loadYouTubePlayer_def Let_def)

lemma toggle_scripts:
  assumes "toggleVideoOverlay s = Inr s'"
  shows "YT s' = YT s
       \<and> scripts s' = (if closedYoutubeModal s \<and> \<not> YT s then iframe_api # scripts s else scripts s)"
proof (cases "querySelector (block s) [] (Simple (Cls ''video-modal''))")
  case None
  with assms show ?thesis by (simp add: toggle_no_modal)
next
  case (Some modal)
  note qm = Some
  show ?thesis
  proof (cases "querySelector (block s) modal (Simple (Cls ''video-modal-content''))")
    case None
    with assms qm show ?thesis by (simp add: toggle_no_content)
  next
    case (Some videoContent)
    note qc = Some
    have cym: "closedYoutubeModal s =
        (\<not> contains (block s) modal ''open''
         \<and> getAttribute (block s) videoContent ''data-videoType'' = Some ''youtube'')"
      by (simp add: closedYoutubeModal_def qm qc)
    show ?thesis
    proof (cases "contains (block s) modal ''open''")
      case True
      note op = True
      show ?thesis
      proof (cases "getAttribute (block s) videoContent ''data-videoType'' = Some ''youtube''")
        case True
        from assms toggle_close_youtube[OF qm qc True op] show ?thesis
          using cym op by auto
      next
        case False
        from assms toggle_close_directFile[OF qm qc False op] show ?thesis
          using cym op by (auto split: option.splits)
      qed
    next
      case False
      note op = False
      show ?thesis
      proof (cases "getAttribute (block s) videoContent ''data-videoType'' = Some ''youtube''")
        case True
        from assms toggle_open_youtube[OF qm qc True op] show ?thesis
          using cym op True
          by (cases "YT s"; cases "scripts s") (auto simp: Let_def loadYouTubePlayer_frame)
      next
        case False
        from assms toggle_open_directFile[OF qm qc False op] show ?thesis
          using cym op False by auto
      qed
    qed
  qed
qed

lemma toggle_injects:
  assumes "closedYoutubeModal s" "\<not> YT s" "scripts s \<noteq> []"
  shows "\<exists>s'. toggleVideoOverlay s = Inr s'"
proof -
  from assms(1) obtain modal videoContent where
    qm: "querySelector (block s) [] (Simple (Cls ''video-modal'')) = Some modal"
    and qc: "querySelector (block s) modal (Simple (Cls ''video-modal-content'')) = Some videoContent"
    and op: "\<not> contains (block s) modal ''open''"
    and ty: "getAttribute (block s) videoContent ''data-videoType'' = Some ''youtube''"
    by (auto simp: closedYoutubeModal_def split: option.splits)
  show ?thesis
    using toggle_open_youtube[OF qm qc ty op] assms(2,3)
    by (cases "scripts s") (simp_all add: Let_def)
qed

lemma apiReady_frame: "YT (apiReady s) \<and> scripts (apiReady s) = scripts s"
  by (cases "onYouTubePlayerAPIReady s")
     (auto simp: apiReady_def Let_def loadYouTubePlayer_frame)

lemma run_with_sdk:
  "YT s \<Longrightarrow> run evs s = Inr s' \<Longrightarrow> YT s' \<and> scripts s' = scripts s"
proof (induction evs arbitrary: s)
  case Nil
  then show ?case by simp
next
  case (Cons ev evs)
  from Cons.prems(2) obtain s1 where st: "step ev s = Inr s1" and r: "run evs s1 = Inr s'"
    by (auto simp: thenDo_def split: sum.splits)
  have "YT s1 \<and> scripts s1 = scripts s"
  proof (cases ev)
    case Activate
    with st have "toggleVideoOverlay s = Inr s1" by simp
    from toggle_scripts[OF this] Cons.prems(1) show ?thesis by simp
  next
    case ApiReady
    with st have "s1 = apiReady s" by simp
    then show ?thesis using apiReady_frame[of s] by simp
  qed
  with Cons.IH[OF _ r] show ?case by simp
qed

text \<open>
  C2, as the specification states it, fails.  The code keeps no record of a load that it
  has requested; the open branch tests \<open>window.YT\<close> only.  After decoration without the
  external script, three activations (open, close, open) with the script still not
  arrived leave two injected script elements in the document.
\<close>

theorem script_injected_twice_counterexample:
  "map_sum id (\<lambda>s. (scripts s, YT s))
     (thenDo (decorate (examplePage ''https://youtu.be/dQw4w9WgXcQ'' False))
        (run [Activate, Activate, Activate]))
   = Inr ([iframe_api, iframe_api, ''/scripts/scripts.js''], False)"
  by code_simp

text \<open>
  C2, amended.  An activation injects a script element exactly when it is the open
  transition of a YouTube modal and \<open>window.YT\<close> is not set at that moment, and then it
  injects one, in front of the first script element; such an activation succeeds whenever
  the document has a script element.  So every open transition that happens while the
  script has not arrived injects another element, and from the moment \<open>window.YT\<close> is set
  no run of activations and arrivals changes the script elements.
\<close>

theorem script_injection:
  "(\<forall>s'. toggleVideoOverlay s = Inr s' \<longrightarrow>
          scripts s' = (if closedYoutubeModal s \<and> \<not> YT s then iframe_api # scripts s
                        else scripts s))
   \<and> (closedYoutubeModal s \<and> \<not> YT s \<and> scripts s \<noteq> [] \<longrightarrow> (\<exists>s'. toggleVideoOverlay s = Inr s'))
   \<and> (YT s \<longrightarrow> (\<forall>s'. run evs s = Inr s' \<longrightarrow> scripts s' = scripts s))"
  using toggle_scripts[of s] toggle_injects[of s] run_with_sdk[of s evs] by blast

theorem script_injection_witness:
  "(\<exists>s'. toggleVideoOverlay (projr (decorate (examplePage ''https://youtu.be/dQw4w9WgXcQ'' False)))
            = Inr s'
        \<and> scripts s' = [iframe_api, ''/scripts/scripts.js''])
   \<and> (\<exists>s'. run [Activate, Activate, ApiReady, Activate]
              (projr (decorate (examplePage ''https://youtu.be/dQw4w9WgXcQ'' True))) = Inr s'
          \<and> scripts s' = [''/scripts/scripts.js''])"
proof
  let ?D = "projr (decorate (examplePage ''https://youtu.be/dQw4w9WgXcQ'' False))"
  let ?E = "projr (decorate (examplePage ''https://youtu.be/dQw4w9WgXcQ'' True))"
  have c: "closedYoutubeModal ?D" by code_simp
  have y: "\<not> YT ?D" by code_simp
  have sc: "scripts ?D = [''/scripts/scripts.js'']" by code_simp
  from script_injection[of ?D "[]"] c y sc obtain s' where
    "toggleVideoOverlay ?D = Inr s'" by auto
  moreover from this script_injection[of ?D "[]"] c y
  have "scripts s' = iframe_api # scripts ?D" by auto
  ultimately show "\<exists>s'. toggleVideoOverlay ?D = Inr s'
        \<and> scripts s' = [iframe_api, ''/scripts/scripts.js'']"
    using sc by auto
  have ye: "YT ?E" by code_simp
  have sce: "scripts ?E = [''/scripts/scripts.js'']" by code_simp
  have "case run [Activate, Activate, ApiReady, Activate] ?E of Inl err \<Rightarrow> False | Inr s' \<Rightarrow> True"
    by code_simp
  then obtain s'' where r: "run [Activate, Activate, ApiReady, Activate] ?E = Inr s''"
    by (auto split: sum.splits)
  with script_injection[of ?E "[Activate, Activate, ApiReady, Activate]"] ye
  have "scripts s'' = scripts ?E" by blast
  with r sce show "\<exists>s'. run [Activate, Activate, ApiReady, Activate] ?E = Inr s'
          \<and> scripts s' = [''/scripts/scripts.js'']"
    by auto
qed

section \<open>The video link in \<open>decorate\<close>\<close>

lemma buildVideoModal_close:
  "querySelector (buildVideoModal href vt) [] (Simple (TagCls ''button'' ''video-modal-close''))
     = Some [1, 0, 0]"
  by (simp add: buildVideoModal_def querySelector_def createTag_def appendChild_def newElement_def
      Let_def ancestorsOrSelf_def)

lemma updateNode_append:
  "updateNode f (p @ q) b = updateNode (updateNode f q) p b"
proof (induction p arbitrary: b)
  case Nil
  show ?case by simp
next
  case (Cons i p)
  show ?case by (cases b) (simp_all add: Cons.IH)
qed

lemma updateNode_updateNode:
  "updateNode g p (updateNode f p b) = updateNode (\<lambda>n. g (f n)) p b"
proof (induction p arbitrary: b)
  case Nil
  show ?case by simp
next
  case (Cons i p)
  show ?case by (cases b) (simp_all add: Cons.IH)
qed

lemma updateNode_cong_at:
  "getNode b p = Some n \<Longrightarrow> f n = g n \<Longrightarrow> updateNode f p b = updateNode g p b"
proof (induction p arbitrary: b)
  case Nil
  then show ?case by simp
next
  case (Cons i p)
  then show ?case by (cases b) (auto split: if_splits)
qed

lemma updateNode_appendChild_root:
  assumes "q \<noteq> []" "getNode b q \<noteq> None"
  shows "updateNode f q (appendChild [] m b) = appendChild [] m (updateNode f q b)"
proof -
  from assms(1) obtain i r where q: "q = i # r" by (cases q) auto
  from assms(2) q obtain e ch where b: "b = Element e ch" and i: "i < length ch"
    by (cases b) (auto split: if_splits)
  show ?thesis unfolding q b using i
    by (simp add: appendChild_def nth_append list_update_append1)
qed


lemma updateNode_last_child:
  "updateNode f [length xs] (Element e (xs @ [x])) = Element e (xs @ [f x])"
  by simp

text \<open>
  The branch of \<open>decorateVideoLink\<close> for a video type other than \<open>external\<close>, in one
  step: the children of the link's parent lose the link and gain the labelled button at
  the end.
\<close>

lemma decorateVideoLink_button:
  assumes vt: "videoType \<noteq> Some ''external''"
      and ne: "link \<noteq> []"
      and par: "getNode b (butlast link) = Some (Element ep chp)"
      and k: "last link < length chp"
  shows "decorateVideoLink link videoType label b =
     (updateNode (\<lambda>n. setChildNodes
          (dropNth (last link) (childNodes n)
           @ [setChildNodes (labelMarkup label)
                (createTag ''button''
                   [(''class'', ''open-video''), (''type'', ''button''),
                    (''aria-label'', ''Play video'')])]) n)
        (butlast link) b,
      butlast link @ [length chp - 1])"
proof -
  let ?P = "butlast link"
  let ?k = "last link"
  let ?btn = "createTag ''button''
                   [(''class'', ''open-video''), (''type'', ''button''),
                    (''aria-label'', ''Play video'')]"
  let ?g1 = "\<lambda>n. setChildNodes (childNodes n @ [?btn]) n"
  let ?g2 = "\<lambda>n. setChildNodes (dropNth ?k (childNodes n)) n"
  let ?b2 = "removeChild link (appendChild ?P ?btn b)"
  have b2: "?b2 = updateNode (\<lambda>n. ?g2 (?g1 n)) ?P b"
    using ne by (simp add: removeChild_def appendChild_def updateNode_updateNode)
  have n2: "getNode ?b2 ?P = Some (Element ep (dropNth ?k chp @ [?btn]))"
    unfolding b2 using getNode_updateNode_prefix[OF par, of "\<lambda>n. ?g2 (?g1 n)" "[]"] k
    by simp
  have len: "length (dropNth ?k chp @ [?btn]) - 1 = length chp - 1"
    using k by simp
  have ref: "?P @ [length (case getNode ?b2 ?P of Some n \<Rightarrow> childNodes n | None \<Rightarrow> []) - 1]
               = ?P @ [length chp - 1]"
    unfolding n2 using len by simp
  have m: "length chp - 1 = length (dropNth ?k chp)" using k by simp
  have "setInnerHTML (?P @ [length chp - 1]) (labelMarkup label) ?b2
          = updateNode (\<lambda>n. updateNode (setChildNodes (labelMarkup label)) [length chp - 1]
                               (?g2 (?g1 n))) ?P b"
    unfolding b2 by (simp add: setInnerHTML_def updateNode_append updateNode_updateNode)
  also have "\<dots> = updateNode (\<lambda>n. setChildNodes
          (dropNth ?k (childNodes n) @ [setChildNodes (labelMarkup label) ?btn]) n) ?P b"
  proof (rule updateNode_cong_at[OF par])
    have a: "?g2 (?g1 (Element ep chp)) = Element ep (dropNth ?k chp @ [?btn])"
      using k by simp
    have c: "updateNode (setChildNodes (labelMarkup label)) [length (dropNth ?k chp)]
               (Element ep (dropNth ?k chp @ [?btn]))
             = Element ep (dropNth ?k chp @ [setChildNodes (labelMarkup label) ?btn])"
      by (rule updateNode_last_child)
    have "updateNode (setChildNodes (labelMarkup label)) [length chp - 1]
            (?g2 (?g1 (Element ep chp)))
          = Element ep (dropNth ?k chp @ [setChildNodes (labelMarkup label) ?btn])"
      unfolding m a by (rule c)
    then show "updateNode (setChildNodes (labelMarkup label)) [length chp - 1]
            (?g2 (?g1 (Element ep chp)))
          = setChildNodes (dropNth ?k (childNodes (Element ep chp))
                @ [setChildNodes (labelMarkup label) ?btn]) (Element ep chp)"
      by simp
  qed
  finally have b3: "setInnerHTML (?P @ [length chp - 1]) (labelMarkup label) ?b2
      = updateNode (\<lambda>n. setChildNodes
          (dropNth ?k (childNodes n) @ [setChildNodes (labelMarkup label) ?btn]) n) ?P b" .
  have "decorateVideoLink link videoType label b =
     (setInnerHTML (?P @ [length (case getNode ?b2 ?P of Some n \<Rightarrow> childNodes n | None \<Rightarrow> []) - 1])
        (labelMarkup label) ?b2,
      ?P @ [length (case getNode ?b2 ?P of Some n \<Rightarrow> childNodes n | None \<Rightarrow> []) - 1])"
    using vt by (simp add: decorateVideoLink_def Let_def)
  then show ?thesis unfolding ref b3 .
qed

lemma getNode_Element_root:
  "getNode b p = Some n \<Longrightarrow> p \<noteq> [] \<or> isElement n \<Longrightarrow> isElement b"
  by (cases p; cases b) auto

lemma decorateLink_builds:
  assumes ql: "querySelector (block s) [] (Descendant (Cls ''video-image'') (Tag ''a'')) = Some videoLink"
      and hp: "map_option hrefProperty (getElement (block s) videoLink) = Some href"
      and vt: "getVideoType href \<noteq> Some ''external''"
  shows "\<exists>ep chp. videoLink \<noteq> []
     \<and> getNode (block s) (butlast videoLink) = Some (Element ep chp)
     \<and> last videoLink < length chp
     \<and> decorateLink s =
         Inr (s\<lparr>block :=
           appendChild []
             (updateElement (\<lambda>e. e\<lparr>listeners := listeners e @ [ToggleVideoOverlay]\<rparr>) [1, 0, 0]
                (buildVideoModal href (getVideoType href)))
             (updateNode (\<lambda>n. setChildNodes
                  (dropNth (last videoLink) (childNodes n)
                   @ [mapElement (\<lambda>e. e\<lparr>listeners := listeners e @ [ToggleVideoOverlay]\<rparr>)
                        (setChildNodes (labelMarkup ''Play'')
                          (createTag ''button''
                             [(''class'', ''open-video''), (''type'', ''button''),
                              (''aria-label'', ''Play video'')]))]) n)
                (butlast videoLink) (block s))\<rparr>)"
proof -
  let ?b = "block s"
  let ?P = "butlast videoLink"
  let ?k = "last videoLink"
  let ?L = "\<lambda>e. e\<lparr>listeners := listeners e @ [ToggleVideoOverlay]\<rparr>"
  let ?btnL = "setChildNodes (labelMarkup ''Play'')
                 (createTag ''button''
                    [(''class'', ''open-video''), (''type'', ''button''),
                     (''aria-label'', ''Play video'')])"
  let ?M = "updateElement ?L [1, 0, 0] (buildVideoModal href (getVideoType href))"
  let ?h = "\<lambda>n. setChildNodes (dropNth ?k (childNodes n) @ [?btnL]) n"
  let ?h' = "\<lambda>n. setChildNodes (dropNth ?k (childNodes n) @ [mapElement ?L ?btnL]) n"
  from querySelector_valid[OF ql] obtain a where ne: "videoLink \<noteq> []"
    and a: "getElement ?b videoLink = Some a" by auto
  from parent_of_element[OF a ne] obtain ep chp where
    par: "getNode ?b ?P = Some (Element ep chp)" and k: "?k < length chp" by blast
  from hp a have href: "hrefProperty a = href" by simp
  have dvl: "decorateVideoLink videoLink (getVideoType href) ''Play'' ?b
               = (updateNode ?h ?P ?b, ?P @ [length chp - 1])"
    by (rule decorateVideoLink_button[OF vt ne par k])
  have m: "length chp - 1 = length (dropNth ?k chp)" using k by simp
  have n3: "getNode (updateNode ?h ?P ?b) ?P = Some (Element ep (dropNth ?k chp @ [?btnL]))"
    using getNode_updateNode_prefix[OF par, of ?h "[]"] by (simp del: dropNth.simps)
  have valid: "getNode (updateNode ?h ?P ?b) (?P @ [length chp - 1]) \<noteq> None"
    unfolding m getNode_append n3 by (simp del: dropNth.simps)
  have "decorateLink s =
      Inr (s\<lparr>block := updateElement ?L (?P @ [length chp - 1])
                         (appendChild [] ?M (updateNode ?h ?P ?b))\<rparr>)"
    unfolding decorateLink_def
    by (simp only: ql option.case a href dvl prod.case Let_def vt not_False_eq_True if_True
          buildVideoModal_close)
  also have "updateElement ?L (?P @ [length chp - 1]) (appendChild [] ?M (updateNode ?h ?P ?b))
      = appendChild [] ?M (updateNode (mapElement ?L) (?P @ [length chp - 1]) (updateNode ?h ?P ?b))"
    unfolding updateElement_def
    by (rule updateNode_appendChild_root[OF _ valid]) simp
  also have "updateNode (mapElement ?L) (?P @ [length chp - 1]) (updateNode ?h ?P ?b)
      = updateNode (\<lambda>n. updateNode (mapElement ?L) [length chp - 1] (?h n)) ?P ?b"
    by (simp only: updateNode_append updateNode_updateNode)
  also have "\<dots> = updateNode ?h' ?P ?b"
  proof (rule updateNode_cong_at[OF par])
    have c: "updateNode (mapElement ?L) [length (dropNth ?k chp)]
               (Element ep (dropNth ?k chp @ [?btnL]))
             = Element ep (dropNth ?k chp @ [mapElement ?L ?btnL])"
      by (rule updateNode_last_child)
    have a: "?h (Element ep chp) = Element ep (dropNth ?k chp @ [?btnL])"
      by (simp del: dropNth.simps)
    have "updateNode (mapElement ?L) [length chp - 1] (?h (Element ep chp))
          = Element ep (dropNth ?k chp @ [mapElement ?L ?btnL])"
      unfolding m a by (rule c)
    then show "updateNode (mapElement ?L) [length chp - 1] (?h (Element ep chp))
          = ?h' (Element ep chp)"
      by (simp del: dropNth.simps)
  qed
  finally have "decorateLink s = Inr (s\<lparr>block := appendChild [] ?M (updateNode ?h' ?P ?b)\<rparr>)" .
  with ne par k show ?thesis by blast
qed


lemma findNode_None:
  "findNode (\<lambda>anc. Q) anc n = None \<Longrightarrow> getElement n q = Some e \<Longrightarrow> \<not> Q e"
  "findNodes (\<lambda>anc. Q) anc i ns = None \<Longrightarrow> j < length ns \<Longrightarrow>
     getElement (ns ! j) q = Some e \<Longrightarrow> \<not> Q e"
proof (induction "\<lambda>anc::element list. Q" anc n and "\<lambda>anc::element list. Q" anc i ns
       arbitrary: q e and j q e rule: findNode_findNodes.induct)
  case (1 anc t)
  then show ?case by (cases q) (simp_all add: getElement_def)
next
  case (2 anc e' ch)
  from 2(2) have nq: "\<not> Q e'" and fs: "findNodes (\<lambda>anc. Q) (e' # anc) 0 ch = None"
    by (auto split: if_splits)
  show ?case
  proof (cases q)
    case Nil
    with 2(3) nq show ?thesis by (simp add: getElement_def)
  next
    case (Cons j r)
    with 2(3) have j: "j < length ch" and g: "getElement (ch ! j) r = Some e"
      by (auto simp: getElement_def split: if_splits)
    from 2(1)[OF nq fs j g] show ?thesis .
  qed
next
  case (3 anc i)
  then show ?case by simp
next
  case (4 anc i n ns)
  from 4(3) have fn: "findNode (\<lambda>anc. Q) anc n = None"
    and fs: "findNodes (\<lambda>anc. Q) anc (Suc i) ns = None"
    by (auto split: option.splits)
  show ?case
  proof (cases j)
    case 0
    with 4(5) have "getElement n q = Some e" by simp
    from 4(1)[OF fn this] show ?thesis .
  next
    case (Suc j')
    with 4(4,5) have "j' < length ns" "getElement (ns ! j') q = Some e" by simp_all
    from 4(2)[OF fn fs this] show ?thesis .
  qed
qed

lemma querySelector_Simple_satisfies:
  assumes "querySelector b [] (Simple sel) = Some t"
  shows "t \<noteq> [] \<and> (\<exists>e. getElement b t = Some e \<and> matchesSimple sel e)"
proof -
  have m: "matches (Simple sel) = (\<lambda>anc. matchesSimple sel)" by (intro ext) simp
  from assms obtain e0 ch where b: "b = Element e0 ch"
    and f: "findNodes (\<lambda>anc. matchesSimple sel) (ancestorsOrSelf b []) 0 ch = Some t"
    unfolding m[symmetric]
    by (cases b) (auto simp: querySelector_def split: option.splits)
  from findNode_satisfies(2)[OF f] obtain j q e where
    "t = (0 + j) # q" "j < length ch" "getElement (ch ! j) q = Some e" "matchesSimple sel e"
    by blast
  then show ?thesis unfolding b by (auto simp: getElement_def)
qed

lemma getNode_updateElement_other:
  "\<not> prefix r t \<Longrightarrow> getNode (updateElement f t b) r = getNode b r"
proof (induction t arbitrary: b r)
  case Nil
  then show ?case by (cases b; cases r) (simp_all add: updateElement_def)
next
  case (Cons j t')
  from Cons.prems obtain i r' where r: "r = i # r'" by (cases r) auto
  with Cons.prems have d: "i \<noteq> j \<or> \<not> prefix r' t'" by auto
  show ?case
  proof (cases b)
    case (Text x)
    then show ?thesis by (simp add: updateElement_def)
  next
    case (Element e ch)
    show ?thesis
    proof (cases "i = j")
      case False
      then show ?thesis using Element r by (simp add: updateElement_def)
    next
      case True
      with d have "\<not> prefix r' t'" by simp
      from Cons.IH[OF this, of "ch ! j"] show ?thesis
        using Element r True by (simp add: updateElement_def)
    qed
  qed
qed

lemma length_childNodes_updateElement:
  "t \<noteq> [] \<Longrightarrow> length (childNodes (updateElement f t b)) = length (childNodes b)"
  by (cases t; cases b) (simp_all add: updateElement_def)

text \<open>
  The last part of \<open>decorate\<close> changes one element of class \<open>video-text\<close>, so a subtree
  without such an element stays as it is, and the number of children of the block stays.
\<close>

lemma alignText_keeps_node:
  assumes n: "getNode (block s) r = Some n"
      and no: "findNode (\<lambda>anc e. ''video-text'' \<in> set (classList e)) [] n = None"
  shows "getNode (block (alignText s)) r = Some n"
proof (cases "querySelector (block s) [] (Simple (Cls ''video-text''))")
  case None
  then show ?thesis using n by (simp add: alignText_def)
next
  case (Some t)
  from querySelector_Simple_satisfies[OF Some] obtain e where
    e: "getElement (block s) t = Some e" and c: "''video-text'' \<in> set (classList e)" by auto
  have np: "\<not> prefix r t"
  proof
    assume "prefix r t"
    then obtain q where t: "t = r @ q" by (auto simp: prefix_def)
    from e have "getElement n q = Some e"
      unfolding t by (simp add: getElement_def getNode_append n)
    from findNode_None(1)[OF no this] c show False by simp
  qed
  have "getNode (updateElement (addClass ''text-left'') t (block s)) r = Some n"
    using getNode_updateElement_other[OF np] n by simp
  then show ?thesis using Some n by (simp add: alignText_def)
qed

lemma alignText_length:
  "length (childNodes (block (alignText s))) = length (childNodes (block s))"
proof (cases "querySelector (block s) [] (Simple (Cls ''video-text''))")
  case None
  then show ?thesis by (simp add: alignText_def)
next
  case (Some t)
  from querySelector_Simple_satisfies[OF Some] have "t \<noteq> []" by simp
  then show ?thesis using Some
    by (simp add: alignText_def length_childNodes_updateElement)
qed

lemma last_child:
  assumes "getNode b [k] = Some m" "length (childNodes b) = Suc k"
  shows "childNodes b \<noteq> [] \<and> last (childNodes b) = m"
proof (cases b)
  case (Text t)
  with assms show ?thesis by simp
next
  case (Element e ch)
  with assms have l: "length ch = Suc k" and m: "ch ! k = m" by (auto split: if_splits)
  from l have "ch \<noteq> []" by auto
  moreover from this l m have "last ch = m" by (simp add: last_conv_nth)
  ultimately show ?thesis using Element by simp
qed


lemma Inr_projr: "(case r of Inl e \<Rightarrow> False | Inr x \<Rightarrow> True) \<Longrightarrow> r = Inr (projr r)"
  by (cases r) simp_all





section \<open>A YouTube link without a video id\<close>

lemma addClass_contains: "c \<in> set (classList (addClass c e))"
  by (simp add: addClass_def)

text \<open>
  C7, as the specification states it, fails.  The href \<open>https://www.youtube.com/\<close> is
  classified \<open>youtube\<close> and has no id; the modal is built, with the string \<open>null\<close> as
  \<open>data-videoId\<close>, and with the external script present the open transition constructs a
  player for the element \<open>ytFrame-null\<close> and the video id \<open>null\<close>.
\<close>

theorem unparseable_id_counterexample:
  "getVideoType ''https://www.youtube.com/'' = Some ''youtube''
   \<and> getYouTubeId ''https://www.youtube.com/'' = None
   \<and> map_sum id sdkLog
        (thenDo (decorate (examplePage ''https://www.youtube.com/'' True)) toggleVideoOverlay)
     = Inr [Constructed \<lparr>playerElement = ''ytFrame-null'', playerVideoId = Some ''null'',
                          playerStart = 0, playerOnReady = True\<rparr>]"
  by code_simp

text \<open>
  C7, amended.  Let \<open>getYouTubeId\<close> return \<open>null\<close> for \<open>href\<close>.  The modal that
  \<open>decorate\<close> builds for \<open>href\<close> as a YouTube link is the tree \<open>videoModal\<close>, whose content
  pane carries the string \<open>null\<close> as \<open>data-videoId\<close>; for any block in which the link
  part finds a link with this \<open>href\<close> property, classified \<open>youtube\<close>, \<open>decorate\<close>
  succeeds and that modal is the last child of the block.  The open transition on a
  closed YouTube modal whose content pane carries \<open>data-videoId\<close> \<open>null\<close> is not a no-op,
  in any page: it opens the modal; with \<open>window.YT\<close> set it writes the hosting container
  \<open>ytFrame-null\<close> into the content pane and constructs a player for that element with the
  video id \<open>null\<close>, which the module variable \<open>player\<close> then holds; with \<open>window.YT\<close>
  not set and a script element in the document it stores the callback, and the arrival
  of the external script constructs that player.
\<close>

theorem unparseable_id_constructs_player:
  assumes noid: "getYouTubeId href = None"
      and vm: "videoModal =
                 Element ((newElement ''div'')
                     \<lparr>classList := [''video-modal''],
                      attributes := [(''aria-modal'', ''true''), (''role'', ''dialog'')]\<rparr>)
                   [Element ((newElement ''div'')\<lparr>classList := [''video-modal-overlay'']\<rparr>) [],
                    Element ((newElement ''div'')\<lparr>classList := [''video-modal-container'']\<rparr>)
                      [Element ((newElement ''div'')\<lparr>classList := [''video-modal-header'']\<rparr>)
                         [Element ((newElement ''button'')
                             \<lparr>classList := [''video-modal-close''],
                              attributes := [(''aria-label'', ''close'')],
                              listeners := [ToggleVideoOverlay]\<rparr>) []],
                       Element ((newElement ''div'')
                           \<lparr>classList := [''video-modal-content''],
                            attributes := [(''data-ytid'', ''null''),
                                           (''data-videoType'', ''youtube''),
                                           (''data-videoId'', ''null'')]\<rparr>) []]]"
      and pl: "nullPlayer = \<lparr>playerElement = ''ytFrame-null'', playerVideoId = Some ''null'',
                              playerStart = 0, playerOnReady = True\<rparr>"
  shows "updateElement (\<lambda>e. e\<lparr>listeners := listeners e @ [ToggleVideoOverlay]\<rparr>) [1, 0, 0]
           (buildVideoModal href (Some ''youtube'')) = videoModal
     \<and> (\<forall>s0 s1 s2 s videoLink.
           cleanUpSingleColumn s0 = Inr s1 \<and> decorateText s1 = Inr s2 \<and> decoratePicture s2 = Inr s
           \<and> querySelector (block s) [] (Descendant (Cls ''video-image'') (Tag ''a'')) = Some videoLink
           \<and> map_option hrefProperty (getElement (block s) videoLink) = Some href
           \<and> getVideoType href = Some ''youtube''
           \<longrightarrow> (\<exists>s'. decorate s0 = Inr s' \<and> childNodes (block s') \<noteq> []
                     \<and> last (childNodes (block s')) = videoModal))
     \<and> (\<forall>s modal videoContent.
           querySelector (block s) [] (Simple (Cls ''video-modal'')) = Some modal
           \<and> querySelector (block s) modal (Simple (Cls ''video-modal-content'')) = Some videoContent
           \<and> getAttribute (block s) videoContent ''data-videoType'' = Some ''youtube''
           \<and> getAttribute (block s) videoContent ''data-videoId'' = Some ''null''
           \<and> \<not> contains (block s) modal ''open''
           \<longrightarrow> (YT s \<longrightarrow>
                  (\<exists>s' e ch. toggleVideoOverlay s = Inr s'
                     \<and> sdkLog s' = sdkLog s @ [Constructed nullPlayer]
                     \<and> player s' = Some nullPlayer
                     \<and> contains (block s') modal ''open''
                     \<and> getNode (block s) videoContent = Some (Element e ch)
                     \<and> getNode (block s') videoContent
                         = Some (Element e
                             [Element ((newElement ''div'')
                                \<lparr>attributes := [(''id'', ''ytFrame-null''),
                                                (''data-hj-allow-iframe'', ''true'')]\<rparr>) []])))
              \<and> (\<not> YT s \<and> scripts s \<noteq> [] \<longrightarrow>
                  (\<exists>s'. toggleVideoOverlay s = Inr s'
                     \<and> sdkLog s' = sdkLog s
                     \<and> contains (block s') modal ''open''
                     \<and> onYouTubePlayerAPIReady s' = Some (''ytFrame-null'', Some ''null'')
                     \<and> sdkLog (apiReady s') = sdkLog s @ [Constructed nullPlayer]
                     \<and> player (apiReady s') = Some nullPlayer)))"
proof (intro conjI allI impI)
  let ?L = "\<lambda>e. e\<lparr>listeners := listeners e @ [ToggleVideoOverlay]\<rparr>"
  show M: "updateElement ?L [1, 0, 0] (buildVideoModal href (Some ''youtube'')) = videoModal"
    unfolding vm
    by (simp add: buildVideoModal_def createTag_def appendChild_def newElement_def
          updateElement_def Let_def setAttr_def noid)
  fix s0 s1 s2 s videoLink
  assume a: "cleanUpSingleColumn s0 = Inr s1 \<and> decorateText s1 = Inr s2 \<and> decoratePicture s2 = Inr s
           \<and> querySelector (block s) [] (Descendant (Cls ''video-image'') (Tag ''a'')) = Some videoLink
           \<and> map_option hrefProperty (getElement (block s) videoLink) = Some href
           \<and> getVideoType href = Some ''youtube''"
  then have c1: "cleanUpSingleColumn s0 = Inr s1" and c2: "decorateText s1 = Inr s2"
    and c3: "decoratePicture s2 = Inr s"
    and ql: "querySelector (block s) [] (Descendant (Cls ''video-image'') (Tag ''a'')) = Some videoLink"
    and hp: "map_option hrefProperty (getElement (block s) videoLink) = Some href"
    and yt: "getVideoType href = Some ''youtube''" by simp_all
  from yt have vt: "getVideoType href \<noteq> Some ''external''" by simp
  let ?h' = "\<lambda>n. setChildNodes
                  (dropNth (last videoLink) (childNodes n)
                   @ [mapElement ?L
                        (setChildNodes (labelMarkup ''Play'')
                          (createTag ''button''
                             [(''class'', ''open-video''), (''type'', ''button''),
                              (''aria-label'', ''Play video'')]))]) n"
  let ?B = "updateNode ?h' (butlast videoLink) (block s)"
  let ?s4 = "s\<lparr>block := appendChild [] videoModal ?B\<rparr>"
  from decorateLink_builds[OF ql hp vt] obtain ep chp where
    par: "getNode (block s) (butlast videoLink) = Some (Element ep chp)"
    and dl: "decorateLink s = Inr ?s4" unfolding yt M by blast
  have "getNode ?B (butlast videoLink) = Some (?h' (Element ep chp))"
    using getNode_updateNode_prefix[OF par, of ?h' "[]"] by simp
  then have "isElement ?B" by (rule getNode_Element_root) simp
  then obtain e0 ch0 where B: "?B = Element e0 ch0" by (cases ?B) auto
  have b4: "block ?s4 = Element e0 (ch0 @ [videoModal])"
    unfolding B by (simp add: appendChild_def)
  have dec: "decorate s0 = Inr (alignText ?s4)"
    using c1 c2 c3 dl by (simp add: decorate_def)
  have nom: "findNode (\<lambda>anc e. ''video-text'' \<in> set (classList e)) [] videoModal = None"
    unfolding vm by (simp add: newElement_def)
  have "getNode (block ?s4) [length ch0] = Some videoModal"
    unfolding b4 by simp
  then have "getNode (block (alignText ?s4)) [length ch0] = Some videoModal"
    by (rule alignText_keeps_node[OF _ nom])
  moreover have "length (childNodes (block (alignText ?s4))) = Suc (length ch0)"
    unfolding alignText_length b4 by simp
  ultimately have "childNodes (block (alignText ?s4)) \<noteq> []
      \<and> last (childNodes (block (alignText ?s4))) = videoModal"
    by (rule last_child)
  with dec show "\<exists>s'. decorate s0 = Inr s' \<and> childNodes (block s') \<noteq> []
                     \<and> last (childNodes (block s')) = videoModal"
    by blast
next
  fix s :: page and modal videoContent
  assume a: "querySelector (block s) [] (Simple (Cls ''video-modal'')) = Some modal
           \<and> querySelector (block s) modal (Simple (Cls ''video-modal-content'')) = Some videoContent
           \<and> getAttribute (block s) videoContent ''data-videoType'' = Some ''youtube''
           \<and> getAttribute (block s) videoContent ''data-videoId'' = Some ''null''
           \<and> \<not> contains (block s) modal ''open''"
  then have qm: "querySelector (block s) [] (Simple (Cls ''video-modal'')) = Some modal"
    and qc: "querySelector (block s) modal (Simple (Cls ''video-modal-content'')) = Some videoContent"
    and ty: "getAttribute (block s) videoContent ''data-videoType'' = Some ''youtube''"
    and vid: "getAttribute (block s) videoContent ''data-videoId'' = Some ''null''"
    and op: "\<not> contains (block s) modal ''open''" by simp_all
  let ?mk = "[Element ((newElement ''div'')
                \<lparr>attributes := [(''id'', ''ytFrame-null''),
                                (''data-hj-allow-iframe'', ''true'')]\<rparr>) []]"
  let ?b1 = "updateElement (addClass ''open'') modal (block s)"
  let ?b2 = "setInnerHTML videoContent ?mk ?b1"
  have mk: "ytFrameMarkup (Some ''null'') = ?mk" by (simp add: ytFrameMarkup_def ytFrame_def)
  have t: "toggleVideoOverlay s =
     (if YT s then Inr (loadYouTubePlayer ''ytFrame-null'' (Some ''null'') (s\<lparr>block := ?b2\<rparr>))
      else (case scripts s of
              [] \<Rightarrow> Inl TypeError
            | firstScriptTag # others \<Rightarrow>
                Inr (s\<lparr>block := ?b2, scripts := iframe_api # scripts s,
                       onYouTubePlayerAPIReady := Some (''ytFrame-null'', Some ''null'')\<rparr>)))"
    using toggle_open_youtube[OF qm qc ty op]
    by (cases "scripts s") (simp_all add: Let_def vid mk ytFrame_def)
  from querySelector_valid[OF qc] obtain c ec where
    vc: "videoContent = modal @ c" and c: "c \<noteq> []"
    and ec: "getElement (block s) videoContent = Some ec" by blast
  from ec obtain chc where nc: "getNode (block s) videoContent = Some (Element ec chc)"
    by (auto simp: getElement_def split: option.splits node.splits)
  have nc1: "getNode ?b1 videoContent = Some (Element ec chc)"
    using getNode_updateElement_below[OF c, of "addClass ''open''" modal "block s"] nc vc by simp
  have nc2: "getNode ?b2 videoContent = Some (Element ec ?mk)"
    using getNode_updateNode_prefix[OF nc1, of "setChildNodes ?mk" "[]"]
    by (simp add: setInnerHTML_def)
  from querySelector_valid[OF qm] obtain em where em: "getElement (block s) modal = Some em"
    by auto
  have "getElement ?b2 modal = getElement ?b1 modal"
    unfolding setInnerHTML_def vc by (rule getElement_updateNode_above) simp_all
  also have "\<dots> = Some (addClass ''open'' em)"
    using em by (simp add: getElement_updateElement)
  finally have open2: "contains ?b2 modal ''open''"
    by (simp add: contains_def addClass_contains)
  show "\<exists>s' e ch. toggleVideoOverlay s = Inr s'
                     \<and> sdkLog s' = sdkLog s @ [Constructed nullPlayer]
                     \<and> player s' = Some nullPlayer
                     \<and> contains (block s') modal ''open''
                     \<and> getNode (block s) videoContent = Some (Element e ch)
                     \<and> getNode (block s') videoContent = Some (Element e ?mk)"
    if y: "YT s"
  proof -
    let ?s' = "loadYouTubePlayer ''ytFrame-null'' (Some ''null'') (s\<lparr>block := ?b2\<rparr>)"
    from t y have "toggleVideoOverlay s = Inr ?s'" by simp
    moreover have "sdkLog ?s' = sdkLog s @ [Constructed nullPlayer]" "player ?s' = Some nullPlayer"
      "block ?s' = ?b2"
      unfolding pl by (simp_all add: loadYouTubePlayer_def Let_def)
    ultimately show "\<exists>s' e ch. toggleVideoOverlay s = Inr s'
                     \<and> sdkLog s' = sdkLog s @ [Constructed nullPlayer]
                     \<and> player s' = Some nullPlayer
                     \<and> contains (block s') modal ''open''
                     \<and> getNode (block s) videoContent = Some (Element e ch)
                     \<and> getNode (block s') videoContent = Some (Element e ?mk)"
      using open2 nc nc2 by auto
  qed
  show "\<exists>s'. toggleVideoOverlay s = Inr s'
                     \<and> sdkLog s' = sdkLog s
                     \<and> contains (block s') modal ''open''
                     \<and> onYouTubePlayerAPIReady s' = Some (''ytFrame-null'', Some ''null'')
                     \<and> sdkLog (apiReady s') = sdkLog s @ [Constructed nullPlayer]
                     \<and> player (apiReady s') = Some nullPlayer"
    if n: "\<not> YT s \<and> scripts s \<noteq> []"
  proof -
    let ?s' = "s\<lparr>block := ?b2, scripts := iframe_api # scripts s,
                       onYouTubePlayerAPIReady := Some (''ytFrame-null'', Some ''null'')\<rparr>"
    from t n have "toggleVideoOverlay s = Inr ?s'" by (cases "scripts s") simp_all
    moreover have "sdkLog ?s' = sdkLog s" "block ?s' = ?b2"
      "onYouTubePlayerAPIReady ?s' = Some (''ytFrame-null'', Some ''null'')" by simp_all
    moreover have "sdkLog (apiReady ?s') = sdkLog s @ [Constructed nullPlayer]"
      "player (apiReady ?s') = Some nullPlayer"
      unfolding pl by (simp_all add: apiReady_def loadYouTubePlayer_def Let_def)
    ultimately show "\<exists>s'. toggleVideoOverlay s = Inr s'
                     \<and> sdkLog s' = sdkLog s
                     \<and> contains (block s') modal ''open''
                     \<and> onYouTubePlayerAPIReady s' = Some (''ytFrame-null'', Some ''null'')
                     \<and> sdkLog (apiReady s') = sdkLog s @ [Constructed nullPlayer]
                     \<and> player (apiReady s') = Some nullPlayer"
      using open2 by auto
  qed
qed

theorem unparseable_id_constructs_player_witness:
  "(\<exists>s'. decorate (examplePage ''https://www.youtube.com/'' True) = Inr s'
       \<and> childNodes (block s') \<noteq> []
       \<and> getAttribute (last (childNodes (block s'))) [1, 1] ''data-videoId'' = Some ''null'')
   \<and> (\<exists>s'. toggleVideoOverlay (projr (decorate (examplePage ''https://www.youtube.com/'' True)))
              = Inr s'
          \<and> sdkLog s' = [Constructed \<lparr>playerElement = ''ytFrame-null'',
                                         playerVideoId = Some ''null'',
                                         playerStart = 0, playerOnReady = True\<rparr>])"
proof
  let ?p = "examplePage ''https://www.youtube.com/'' True"
  let ?s1 = "projr (cleanUpSingleColumn ?p)"
  let ?s2 = "projr (decorateText ?s1)"
  let ?s = "projr (decoratePicture ?s2)"
  have noid: "getYouTubeId ''https://www.youtube.com/'' = None" by code_simp
  have c1: "cleanUpSingleColumn ?p = Inr ?s1" by (rule Inr_projr) code_simp
  have c2: "decorateText ?s1 = Inr ?s2" by (rule Inr_projr) code_simp
  have c3: "decoratePicture ?s2 = Inr ?s" by (rule Inr_projr) code_simp
  have ql: "querySelector (block ?s) [] (Descendant (Cls ''video-image'') (Tag ''a'')) = Some [0, 0, 0]"
    by code_simp
  have hp: "map_option hrefProperty (getElement (block ?s) [0, 0, 0])
              = Some ''https://www.youtube.com/''"
    by code_simp
  have yt: "getVideoType ''https://www.youtube.com/'' = Some ''youtube''" by code_simp
  note b = unparseable_id_constructs_player[OF noid refl refl, THEN conjunct2, THEN conjunct1,
             rule_format, of ?p ?s1 ?s2 ?s "[0, 0, 0]"]
  have "\<exists>s'. decorate ?p = Inr s' \<and> childNodes (block s') \<noteq> []
          \<and> last (childNodes (block s')) =
                 Element ((newElement ''div'')
                     \<lparr>classList := [''video-modal''],
                      attributes := [(''aria-modal'', ''true''), (''role'', ''dialog'')]\<rparr>)
                   [Element ((newElement ''div'')\<lparr>classList := [''video-modal-overlay'']\<rparr>) [],
                    Element ((newElement ''div'')\<lparr>classList := [''video-modal-container'']\<rparr>)
                      [Element ((newElement ''div'')\<lparr>classList := [''video-modal-header'']\<rparr>)
                         [Element ((newElement ''button'')
                             \<lparr>classList := [''video-modal-close''],
                              attributes := [(''aria-label'', ''close'')],
                              listeners := [ToggleVideoOverlay]\<rparr>) []],
                       Element ((newElement ''div'')
                           \<lparr>classList := [''video-modal-content''],
                            attributes := [(''data-ytid'', ''null''),
                                           (''data-videoType'', ''youtube''),
                                           (''data-videoId'', ''null'')]\<rparr>) []]]"
    by (rule b) (intro conjI c1 c2 c3 ql hp yt)
  then obtain s' where d: "decorate ?p = Inr s'" and ne: "childNodes (block s') \<noteq> []"
    and l: "last (childNodes (block s')) =
                 Element ((newElement ''div'')
                     \<lparr>classList := [''video-modal''],
                      attributes := [(''aria-modal'', ''true''), (''role'', ''dialog'')]\<rparr>)
                   [Element ((newElement ''div'')\<lparr>classList := [''video-modal-overlay'']\<rparr>) [],
                    Element ((newElement ''div'')\<lparr>classList := [''video-modal-container'']\<rparr>)
                      [Element ((newElement ''div'')\<lparr>classList := [''video-modal-header'']\<rparr>)
                         [Element ((newElement ''button'')
                             \<lparr>classList := [''video-modal-close''],
                              attributes := [(''aria-label'', ''close'')],
                              listeners := [ToggleVideoOverlay]\<rparr>) []],
                       Element ((newElement ''div'')
                           \<lparr>classList := [''video-modal-content''],
                            attributes := [(''data-ytid'', ''null''),
                                           (''data-videoType'', ''youtube''),
                                           (''data-videoId'', ''null'')]\<rparr>) []]]"
    by (elim exE conjE)
  have "getAttribute (last (childNodes (block s'))) [1, 1] ''data-videoId'' = Some ''null''"
    unfolding l by (simp add: getAttribute_def getElement_def newElement_def)
  with d ne show "\<exists>s'. decorate ?p = Inr s'
       \<and> childNodes (block s') \<noteq> []
       \<and> getAttribute (last (childNodes (block s'))) [1, 1] ''data-videoId'' = Some ''null''"
    by (intro exI conjI)
next
  let ?D = "projr (decorate (examplePage ''https://www.youtube.com/'' True))"
  have vid: "getAttribute (block ?D) [1, 1, 1] ''data-videoId'' = Some ''null''" by code_simp
  have noid: "getYouTubeId ''https://www.youtube.com/'' = None" by code_simp
  have qm: "querySelector (block ?D) [] (Simple (Cls ''video-modal'')) = Some [1]" by code_simp
  have qc: "querySelector (block ?D) [1] (Simple (Cls ''video-modal-content'')) = Some [1, 1, 1]"
    by code_simp
  have ty: "getAttribute (block ?D) [1, 1, 1] ''data-videoType'' = Some ''youtube''" by code_simp
  have op: "\<not> contains (block ?D) [1] ''open''" by code_simp
  have y: "YT ?D" by code_simp
  have lg: "sdkLog ?D = []" by code_simp
  note t = unparseable_id_constructs_player[OF noid refl refl, THEN conjunct2, THEN conjunct2,
             rule_format, of ?D "[1]" "[1, 1, 1]", THEN conjunct1, rule_format]
  have "\<exists>s' e ch. toggleVideoOverlay ?D = Inr s'
          \<and> sdkLog s' = sdkLog ?D @ [Constructed \<lparr>playerElement = ''ytFrame-null'',
                                         playerVideoId = Some ''null'',
                                         playerStart = 0, playerOnReady = True\<rparr>]
          \<and> player s' = Some \<lparr>playerElement = ''ytFrame-null'',
                                         playerVideoId = Some ''null'',
                                         playerStart = 0, playerOnReady = True\<rparr>
          \<and> contains (block s') [1] ''open''
          \<and> getNode (block ?D) [1, 1, 1] = Some (Element e ch)
          \<and> getNode (block s') [1, 1, 1]
                         = Some (Element e
                             [Element ((newElement ''div'')
                                \<lparr>attributes := [(''id'', ''ytFrame-null''),
                                                (''data-hj-allow-iframe'', ''true'')]\<rparr>) []])"
    by (rule t) (intro conjI qm qc ty vid op, rule y)
  then obtain s' where "toggleVideoOverlay ?D = Inr s'"
    "sdkLog s' = sdkLog ?D @ [Constructed \<lparr>playerElement = ''ytFrame-null'',
                                         playerVideoId = Some ''null'',
                                         playerStart = 0, playerOnReady = True\<rparr>]"
    by (elim exE conjE)
  then show "\<exists>s'. toggleVideoOverlay ?D = Inr s'
          \<and> sdkLog s' = [Constructed \<lparr>playerElement = ''ytFrame-null'',
                                         playerVideoId = Some ''null'',
                                         playerStart = 0, playerOnReady = True\<rparr>]"
    unfolding lg by (intro exI conjI) simp_all
qed

section \<open>Errors thrown and absences tolerated\<close>

lemma hasTag_root: "hasTag t b \<longleftrightarrow> (\<exists>e. getElement b [] = Some e \<and> tagName e = t)"
  by (cases b) (simp_all add: getElement_def)

lemma closest_in_div_block:
  assumes "hasTag ''div'' b"
  shows "closest b p ''div'' \<noteq> None"
proof -
  from assms obtain e where "getElement b [] = Some e" "tagName e = ''div''"
    by (auto simp: hasTag_root)
  then have root: "case getElement b [] of Some e \<Rightarrow> tagName e = ''div'' | None \<Rightarrow> False"
    by simp
  have mem: "[] \<in> set (rev (prefixes p))" by simp
  show ?thesis
  proof
    assume "closest b p ''div'' = None"
    then have "\<forall>q\<in>set (rev (prefixes p)).
        \<not> (case getElement b q of Some e \<Rightarrow> tagName e = ''div'' | None \<Rightarrow> False)"
      unfolding closest_def find_None_iff by blast
    with mem have "\<not> (case getElement b [] of Some e \<Rightarrow> tagName e = ''div'' | None \<Rightarrow> False)"
      by blast
    with root show False by simp
  qed
qed

lemma hasTag_updateNode_below:
  "p \<noteq> [] \<Longrightarrow> hasTag t (updateNode g p b) = hasTag t b"
  by (cases b; cases p) simp_all

lemma hasTag_updateElement:
  assumes "\<And>e. tagName (f e) = tagName e"
  shows "hasTag t (updateElement f p b) = hasTag t b"
  unfolding hasTag_root getElement_updateElement
  using assms by (cases "getElement b []") auto

lemma children_nonempty: "c \<in> set (children b p) \<Longrightarrow> c \<noteq> []"
  by (auto simp: children_def split: option.splits)

lemma cleanUp_keeps_tag:
  assumes "cleanUpSingleColumn s = Inr s1"
  shows "hasTag t (block s1) = hasTag t (block s)"
proof -
  from assms obtain row where row: "firstElementChild (block s) [] = Some row"
    by (auto simp: cleanUpSingleColumn_def split: option.splits)
  show ?thesis
  proof (cases "length (children (block s) row) = 1")
    case True
    then have "hd (children (block s) row) \<in> set (children (block s) row)"
      by (cases "children (block s) row") simp_all
    then have "hd (children (block s) row) \<noteq> []" by (rule children_nonempty)
    then show ?thesis using assms row True
      by (auto simp: cleanUpSingleColumn_def Let_def hasTag_updateNode_below)
  next
    case False
    then show ?thesis using assms row
      by (auto simp: cleanUpSingleColumn_def Let_def)
  qed
qed

lemma cleanUp_ok:
  "firstElementChild (block s) [] \<noteq> None \<Longrightarrow> \<exists>s1. cleanUpSingleColumn s = Inr s1"
  by (auto simp: cleanUpSingleColumn_def Let_def split: option.splits)

lemma cleanUp_throws:
  "firstElementChild (block s) [] = None \<Longrightarrow> cleanUpSingleColumn s = Inl TypeError"
  by (simp add: cleanUpSingleColumn_def)

lemma decorateText_ok:
  assumes "hasTag ''div'' (block s)"
  shows "\<exists>s2. decorateText s = Inr s2 \<and> hasTag ''div'' (block s2)"
proof (cases "querySelector (block s) [] (Simple (Tag ''h2''))")
  case None
  then show ?thesis using assms by (simp add: decorateText_def)
next
  case (Some heading)
  from closest_in_div_block[OF assms, of heading] obtain d where
    d: "closest (block s) heading ''div'' = Some d" by auto
  have "hasTag ''div'' (updateElement (addClass ''video-text'') d (block s))"
    using assms by (simp add: hasTag_updateElement addClass_def)
  then show ?thesis using Some d by (simp add: decorateText_def)
qed

lemma decoratePicture_ok:
  assumes "hasTag ''div'' (block s)"
  shows "\<exists>s3. decoratePicture s = Inr s3"
proof (cases "querySelector (block s) [] (Simple (Tag ''picture''))")
  case None
  then show ?thesis by (simp add: decoratePicture_def)
next
  case (Some picture)
  from closest_in_div_block[OF assms, of picture] obtain c where
    c: "closest (block s) picture ''div'' = Some c" by auto
  show ?thesis using Some c
    by (simp add: decoratePicture_def Let_def split: option.splits)
qed

lemma decorateLink_ok: "\<exists>s4. decorateLink s = Inr s4"
proof (cases "querySelector (block s) [] (Descendant (Cls ''video-image'') (Tag ''a''))")
  case None
  then show ?thesis by (simp add: decorateLink_def)
next
  case (Some videoLink)
  then show ?thesis
    by (simp add: decorateLink_def Let_def buildVideoModal_close split: prod.splits)
qed

lemma decorate_ok:
  assumes "hasTag ''div'' (block s)" "firstElementChild (block s) [] \<noteq> None"
  shows "\<exists>s'. decorate s = Inr s'"
proof -
  from cleanUp_ok[OF assms(2)] obtain s1 where s1: "cleanUpSingleColumn s = Inr s1" by blast
  have "hasTag ''div'' (block s1)" using cleanUp_keeps_tag[OF s1] assms(1) by simp
  from decorateText_ok[OF this] obtain s2 where
    s2: "decorateText s1 = Inr s2" and t2: "hasTag ''div'' (block s2)" by blast
  from decoratePicture_ok[OF t2] obtain s3 where s3: "decoratePicture s2 = Inr s3" by blast
  from decorateLink_ok[of s3] obtain s4 where s4: "decorateLink s3 = Inr s4" by blast
  show ?thesis using s1 s2 s3 s4 by (simp add: decorate_def)
qed

lemma decorate_throws:
  "firstElementChild (block s) [] = None \<Longrightarrow> decorate s = Inl TypeError"
  by (simp add: decorate_def cleanUp_throws)

lemma toggle_ok:
  assumes qm: "querySelector (block s) [] (Simple (Cls ''video-modal'')) = Some modal"
      and qc: "querySelector (block s) modal (Simple (Cls ''video-modal-content'')) = Some videoContent"
      and c: "if getAttribute (block s) videoContent ''data-videoType'' = Some ''youtube''
              then contains (block s) modal ''open'' \<or> YT s \<or> scripts s \<noteq> []
              else \<not> contains (block s) modal ''open''
                   \<or> querySelector (block s) modal (Simple (Tag ''video'')) \<noteq> None"
  shows "\<exists>s'. toggleVideoOverlay s = Inr s'"
proof (cases "getAttribute (block s) videoContent ''data-videoType'' = Some ''youtube''")
  case True
  note ty = True
  show ?thesis
  proof (cases "contains (block s) modal ''open''")
    case True
    show ?thesis using toggle_close_youtube[OF qm qc ty True] by simp
  next
    case False
    with c ty have "YT s \<or> scripts s \<noteq> []" by simp
    then show ?thesis using toggle_open_youtube[OF qm qc ty False]
      by (cases "YT s"; cases "scripts s") (simp_all add: Let_def)
  qed
next
  case False
  note ty = False
  show ?thesis
  proof (cases "contains (block s) modal ''open''")
    case True
    with c ty obtain v where "querySelector (block s) modal (Simple (Tag ''video'')) = Some v"
      by auto
    then show ?thesis using toggle_close_directFile[OF qm qc ty True] by simp
  next
    case False
    show ?thesis using toggle_open_directFile[OF qm qc ty False] by simp
  qed
qed

text \<open>
  C8, as the specification states it, fails.  For a link classified \<open>external\<close> the
  decoration builds no modal, and \<open>toggleVideoOverlay\<close> on that block throws a
  \<open>TypeError\<close> (\<open>modal\<close> is \<open>null\<close> in \<open>modal.querySelector\<close>).
\<close>

theorem toggle_without_modal_counterexample:
  "thenDo (decorate (examplePage ''https://vimeo.com/76979871'' False)) toggleVideoOverlay
     = Inl TypeError"
  by code_simp

text \<open>
  C8, amended.  \<open>toggleVideoOverlay\<close> throws a \<open>TypeError\<close> when the block has no modal
  and when the modal has no content pane.  With both present it completes without an
  error: on a YouTube modal whenever the modal is open, or \<open>window.YT\<close> is set, or the
  document has a script element; on any other modal whenever the modal is closed, or it
  has a \<open>video\<close> element.  \<open>decorate\<close> throws a \<open>TypeError\<close> on a block without an
  element child; on a \<open>div\<close> block with an element child it completes without an error,
  whether or not the block has a heading, a picture or a link.
\<close>

theorem errors_thrown_and_absorbed:
  "(querySelector (block s) [] (Simple (Cls ''video-modal'')) = None
      \<longrightarrow> toggleVideoOverlay s = Inl TypeError)
   \<and> (\<forall>modal. querySelector (block s) [] (Simple (Cls ''video-modal'')) = Some modal
          \<and> querySelector (block s) modal (Simple (Cls ''video-modal-content'')) = None
      \<longrightarrow> toggleVideoOverlay s = Inl TypeError)
   \<and> (\<forall>modal videoContent.
          querySelector (block s) [] (Simple (Cls ''video-modal'')) = Some modal
          \<and> querySelector (block s) modal (Simple (Cls ''video-modal-content'')) = Some videoContent
          \<and> (if getAttribute (block s) videoContent ''data-videoType'' = Some ''youtube''
              then contains (block s) modal ''open'' \<or> YT s \<or> scripts s \<noteq> []
              else \<not> contains (block s) modal ''open''
                   \<or> querySelector (block s) modal (Simple (Tag ''video'')) \<noteq> None)
      \<longrightarrow> (\<exists>s'. toggleVideoOverlay s = Inr s'))
   \<and> (firstElementChild (block s) [] = None \<longrightarrow> decorate s = Inl TypeError)
   \<and> (hasTag ''div'' (block s) \<and> firstElementChild (block s) [] \<noteq> None
      \<longrightarrow> (\<exists>s'. decorate s = Inr s'))"
  using toggle_no_modal[of s] toggle_no_content[of s] toggle_ok[of s]
    decorate_throws[of s] decorate_ok[of s]
  by blast

theorem errors_thrown_and_absorbed_witness:
  "toggleVideoOverlay (examplePage ''https://example.com/video.mp4'' False) = Inl TypeError
   \<and> (\<exists>s'. decorate (examplePage ''https://example.com/video.mp4'' False) = Inr s')
   \<and> (\<exists>s'. toggleVideoOverlay
               (projr (decorate (examplePage ''https://example.com/video.mp4'' False))) = Inr s')"
proof (intro conjI)
  let ?p = "examplePage ''https://example.com/video.mp4'' False"
  let ?d = "projr (decorate ?p)"
  have n: "querySelector (block ?p) [] (Simple (Cls ''video-modal'')) = None" by code_simp
  with errors_thrown_and_absorbed[of ?p] show "toggleVideoOverlay ?p = Inl TypeError" by blast
  have "hasTag ''div'' (block ?p)" by code_simp
  moreover have "firstElementChild (block ?p) [] \<noteq> None" by code_simp
  ultimately show "\<exists>s'. decorate ?p = Inr s'"
    using errors_thrown_and_absorbed[of ?p] by blast
  have qm: "querySelector (block ?d) [] (Simple (Cls ''video-modal'')) = Some [1]" by code_simp
  have qc: "querySelector (block ?d) [1] (Simple (Cls ''video-modal-content'')) = Some [1, 1, 1]"
    by code_simp
  have ty: "getAttribute (block ?d) [1, 1, 1] ''data-videoType'' \<noteq> Some ''youtube''" by code_simp
  have op: "\<not> contains (block ?d) [1] ''open''" by code_simp
  from errors_thrown_and_absorbed[of ?d] qm qc ty op
  show "\<exists>s'. toggleVideoOverlay ?d = Inr s'"
    by (elim conjE allE[of _ "[1]"] allE[of _ "[1, 1, 1]"]) simp
qed

end
